theory Spec2Isabelle
  imports Main "HOL-Library.Word" "HOL-Library.AList"
begin

section \<open>Python values, dictionaries and sets\<close>

text \<open>
  The exceptions the modelled code can raise: indexing an empty list, a missing key,
  an attribute or operation on \<^verbatim>\<open>None\<close> or on a value of the wrong kind, and the
  exception of a stream that refuses a position or a size (\<^verbatim>\<open>ValueError\<close>,
  \<^verbatim>\<open>OverflowError\<close>, \<^verbatim>\<open>OSError\<close> or \<^verbatim>\<open>MemoryError\<close>, by the kind of stream).
\<close>

datatype error = IndexError | KeyError | AttributeError | TypeError | StreamError

type_synonym byte = "8 word"

text \<open>
  Dictionary keys are strings (field and section names, segment types) or integers
  (segment offsets). A value is an integer, a string, a mapping, or any other object
  (type parameter \<open>'o\<close>; the sections of the parser are the only such objects the code
  puts in a dictionary). A dictionary is an association list in insertion
  order, read with \<open>map_of\<close> and written with \<open>AList.update\<close>.
\<close>

datatype pykey = KInt int | KStr string

datatype 'o pyval = VInt int | VStr string | VDict "(pykey \<times> 'o pyval) list" | VObject 'o

type_synonym 'o pydict = "(pykey \<times> 'o pyval) list"

type_synonym plain_dict = "unit pydict"

text \<open>
  A Python \<^verbatim>\<open>set\<close> is a list without duplicates; the order of the list is the order in
  which the set is iterated, which Python leaves unspecified.
\<close>

type_synonym 'a pyset = "'a list"

definition keys :: "('k \<times> 'v) list \<Rightarrow> 'k pyset" where
  "keys d = remdups (map fst d)"

definition intersection :: "'a pyset \<Rightarrow> 'a pyset \<Rightarrow> 'a pyset" where
  "intersection a b = filter (\<lambda>k. k \<in> set b) a"

definition difference :: "'a pyset \<Rightarrow> 'a pyset \<Rightarrow> 'a pyset" where
  "difference a b = filter (\<lambda>k. k \<notin> set b) a"

definition add :: "'a \<Rightarrow> 'a pyset \<Rightarrow> 'a pyset" where
  "add k s = (if k \<in> set s then s else s @ [k])"

text \<open>\<^verbatim>\<open>isinstance(v, Mapping)\<close> and the items of a mapping.\<close>

fun is_Mapping :: "'o pyval \<Rightarrow> bool" where
  "is_Mapping (VDict m) = True"
| "is_Mapping v = False"

fun items :: "'o pyval \<Rightarrow> 'o pydict" where
  "items (VDict m) = m"
| "items v = []"

text \<open>
  \<^verbatim>\<open>operator.eq\<close>, the default \<^verbatim>\<open>compare_function\<close>: integers and strings by value,
  mappings by key set and by the values under each key, other objects by their own
  \<^verbatim>\<open>__eq__\<close>, which is the equality of the type that stands for them.
\<close>

fun py_eq :: "'o pyval \<Rightarrow> 'o pyval \<Rightarrow> bool" where
  "py_eq (VInt a) (VInt b) = (a = b)"
| "py_eq (VStr a) (VStr b) = (a = b)"
| "py_eq (VObject a) (VObject b) = (a = b)"
| "py_eq (VDict a) (VDict b) =
     (set (map fst a) = set (map fst b) \<and>
      list_all (\<lambda>(k, v). case map_of b k of Some w \<Rightarrow> py_eq v w | None \<Rightarrow> False) a)"
| "py_eq v w = False"

section \<open>The first-difference primitive (utils.py)\<close>

text \<open>
  The loop \<^verbatim>\<open>for i in range(length): if a[i] != b[i]: return i\<close> of
  \<^verbatim>\<open>locate_array_diff\<close>, with the loop counter made explicit. \<open>None\<close> means the
  loop ran to its end without returning.
\<close>

function locate_loop :: "byte list \<Rightarrow> byte list \<Rightarrow> nat \<Rightarrow> nat \<Rightarrow> nat option" where
  "locate_loop byte_array_1 byte_array_2 i len =
     (if i < len
      then (if byte_array_1 ! i \<noteq> byte_array_2 ! i then Some i
            else locate_loop byte_array_1 byte_array_2 (Suc i) len)
      else None)"
  by pat_completeness auto
termination
  by (relation "measure (\<lambda>(a, b, i, n). n - i)") auto

declare locate_loop.simps [simp del]

definition locate_array_diff :: "byte list \<Rightarrow> byte list \<Rightarrow> int" where
  "locate_array_diff byte_array_1 byte_array_2 =
     (let len_1 = length byte_array_1;
          len_2 = length byte_array_2;
          len = min len_1 len_2
      in case locate_loop byte_array_1 byte_array_2 0 len of
           Some i \<Rightarrow> int i
         | None \<Rightarrow> if len_1 \<noteq> len_2 then int len else - 1)"

section \<open>The associative diff (utils.py)\<close>

text \<open>
  \<^verbatim>\<open>DictDiff\<close>: the keys new on either side, the keys in both dictionaries, the
  dictionary of changes and the set of keys with equal values. A change is the tuple
  of the two values, or the \<^verbatim>\<open>DictDiff\<close> of two nested dictionaries.
\<close>

datatype 'o DictDiff =
  DictDiff (left_new: "pykey pyset") (right_new: "pykey pyset") (common_keys: "pykey pyset")
           (modified: "(pykey \<times> 'o modified_value) list") (same: "pykey pyset")
and 'o modified_value = Tuple "'o pyval" "'o pyval" | Nested "'o DictDiff"

text \<open>\<^verbatim>\<open>DictDiff.has_changes\<close>: the truth value of \<^verbatim>\<open>left_new or right_new or modified\<close>.\<close>

definition has_changes :: "'o DictDiff \<Rightarrow> bool" where
  "has_changes d \<longleftrightarrow> left_new d \<noteq> [] \<or> right_new d \<noteq> [] \<or> modified d \<noteq> []"

text \<open>
  \<^verbatim>\<open>compare_dict\<close>. The loop over \<^verbatim>\<open>intersect_keys\<close> is a fold whose state is the pair
  \<^verbatim>\<open>(same, modified)\<close>. Every key of the loop is in both dictionaries, so the lookups
  \<^verbatim>\<open>d1[key]\<close> and \<^verbatim>\<open>d2[key]\<close> succeed; the last branch of the case, which leaves the
  state as it is, is never taken. The recursive call passes \<^verbatim>\<open>include_same\<close> and
  \<^verbatim>\<open>deep\<close> only, so \<^verbatim>\<open>include_modified\<close> and \<^verbatim>\<open>compare_function\<close> take their defaults
  there.
\<close>

function compare_dict ::
  "'o pydict \<Rightarrow> 'o pydict \<Rightarrow> bool \<Rightarrow> bool \<Rightarrow> bool \<Rightarrow> ('o pyval \<Rightarrow> 'o pyval \<Rightarrow> bool) \<Rightarrow> 'o DictDiff"
where
  "compare_dict d1 d2 deep include_modified include_same compare_function =
     (let d1_keys = keys d1;
          d2_keys = keys d2;
          intersect_keys = intersection d1_keys d2_keys;
          d1_new = difference d1_keys d2_keys;
          d2_new = difference d2_keys d1_keys;
          (same, modified) =
            fold (\<lambda>key (same, modified).
                    case (map_of d1 key, map_of d2 key) of
                      (Some value_1, Some value_2) \<Rightarrow>
                        if compare_function value_1 value_2
                        then (if include_same then (add key same, modified) else (same, modified))
                        else if include_modified
                        then (if deep \<and> is_Mapping value_1 \<and> is_Mapping value_2
                              then (same, AList.update key
                                      (Nested (compare_dict (items value_1) (items value_2)
                                                 deep True include_same py_eq)) modified)
                              else (same, AList.update key (Tuple value_1 value_2) modified))
                        else (same, modified)
                    | _ \<Rightarrow> (same, modified))
                 intersect_keys ([], [])
      in DictDiff d1_new d2_new intersect_keys modified same)"
  by pat_completeness auto
termination
  apply (relation "measure (\<lambda>(d1, d2, deep, im, isame, cf). size_list (size_prod (\<lambda>k. 0) size) d1)")
   apply simp
  apply (clarsimp elim!: is_Mapping.elims)
  subgoal for d1 d2 deep include_modified compare_function key m ma
    using size_list_estimation [of "(key, VDict m)" d1 "size_list (size_prod (\<lambda>k. 0) size) m"
                                   "size_prod (\<lambda>k. 0) size"]
          map_of_SomeD [of d1 key "VDict m"]
    by simp
  done

declare compare_dict.simps [simp del]

section \<open>The parsed object file (the parser's records, consumed by elfcmp.py)\<close>

text \<open>
  A section of the parser: its name, its header as a mapping, the three header fields
  the occupancy code reads (\<^verbatim>\<open>section["sh_offset"]\<close>, \<^verbatim>\<open>section["sh_size"]\<close>,
  \<^verbatim>\<open>section["sh_type"]\<close>) as typed components, the answer of \<^verbatim>\<open>section.is_null()\<close>
  and the bytes \<^verbatim>\<open>section.data()\<close> returns.
\<close>

record Section =
  name :: string
  header :: plain_dict
  sh_offset :: int
  sh_size :: int
  sh_type :: string
  is_null :: bool
  section_data :: "byte list"

text \<open>A segment: \<^verbatim>\<open>segm["p_type"]\<close>, \<^verbatim>\<open>segm["p_offset"]\<close> and \<^verbatim>\<open>segm.header\<close>.\<close>

record Segment =
  p_type :: pykey
  p_offset :: int
  segment_header :: plain_dict

text \<open>
  The stream a file is read from: its bytes, and which absolute positions and which
  sizes it accepts in \<^verbatim>\<open>seek\<close> and \<^verbatim>\<open>read\<close>. What a stream refuses depends on its kind
  and on the platform, so both are components of the stream. \<^verbatim>\<open>io.BytesIO\<close> accepts the
  positions from 0 up to \<open>2^63\<close> and the sizes from \<open>-2^63\<close> up to \<open>2^63\<close>;
  a file opened \<^verbatim>\<open>'rb'\<close> refuses every negative size but \<open>-1\<close>, and the positions and
  sizes beyond what the file system and the memory allow.
\<close>

record Stream =
  content :: "byte list"
  accepts_position :: "int \<Rightarrow> bool"
  accepts_size :: "int \<Rightarrow> bool"

definition BytesIO :: "byte list \<Rightarrow> Stream" where
  "BytesIO bytes =
     \<lparr>content = bytes,
      accepts_position = (\<lambda>pos. 0 \<le> pos \<and> pos < 2 ^ 63),
      accepts_size = (\<lambda>n. - (2 ^ 63) \<le> n \<and> n < 2 ^ 63)\<rparr>"

text \<open>
  What \<^verbatim>\<open>ELFFile\<close> gives \<^verbatim>\<open>ComparableElf\<close>: the header mapping (with the nested
  \<^verbatim>\<open>e_ident\<close> mapping), the header fields read by \<^verbatim>\<open>self["..."]\<close> as typed
  components, the sections and segments in file order, and the stream.
\<close>

record ELFFile =
  elf_header :: plain_dict
  e_ehsize :: int
  e_phoff :: int
  e_phentsize :: int
  e_phnum :: int
  e_shoff :: int
  e_shentsize :: int
  e_shnum :: int
  iter_sections :: "Section list"
  iter_segments :: "Segment list"
  stream :: Stream

section \<open>Blocks and diff results (structs.py)\<close>

datatype BlockType =
  NOT_USED | ELF_HEADER | PROGRAM_HEADER_TABLE | SECTION_HEADER_TABLE | SECTION

text \<open>
  The \<^verbatim>\<open>object_\<close> of a block: nothing, the flattened header dictionary, or a section.
\<close>

datatype block_object = NoObject | HeaderObject plain_dict | SectionObject Section

text \<open>
  A \<^verbatim>\<open>Block\<close>. Its \<^verbatim>\<open>elf\<close> attribute points back to the file the block was computed
  for and is read by \<^verbatim>\<open>data\<close> only, so the model passes that file's stream to \<open>data\<close>.
\<close>

record Block =
  start_offset :: int
  size_blk :: int
  block_type :: BlockType
  object_blk :: block_object

definition mk_Block :: "int \<Rightarrow> int \<Rightarrow> BlockType \<Rightarrow> block_object \<Rightarrow> Block" where
  "mk_Block start sz ty ob =
     \<lparr>start_offset = start, size_blk = sz, block_type = ty, object_blk = ob\<rparr>"

definition last_offset :: "Block \<Rightarrow> int" where
  "last_offset b = start_offset b + size_blk b - 1"

definition end_offset :: "Block \<Rightarrow> int" where
  "end_offset b = start_offset b + size_blk b"

text \<open>
  \<^verbatim>\<open>stream.seek(pos)\<close> raises for a negative position and for one the stream does not
  accept, and otherwise moves to \<open>pos\<close>, which may lie beyond the last byte.
  \<^verbatim>\<open>stream.read(n)\<close> raises for a size the stream does not accept; for an accepted
  negative size it returns the bytes from the position to the end, and otherwise the
  bytes that are there, at most \<open>n\<close>.
\<close>

definition seek :: "Stream \<Rightarrow> int \<Rightarrow> error + nat" where
  "seek s pos =
     (if pos < 0 \<or> \<not> accepts_position s pos then Inl StreamError else Inr (nat pos))"

definition read :: "Stream \<Rightarrow> nat \<Rightarrow> int \<Rightarrow> error + byte list" where
  "read s pos n =
     (if \<not> accepts_size s n then Inl StreamError
      else if n < 0 then Inr (drop pos (content s))
      else Inr (take (nat n) (drop pos (content s))))"

text \<open>\<^verbatim>\<open>Block.data\<close>: \<^verbatim>\<open>stream.seek(start_offset)\<close>, then \<^verbatim>\<open>stream.read(size)\<close>.\<close>

definition data :: "Stream \<Rightarrow> Block \<Rightarrow> error + byte list" where
  "data s b =
     (case seek s (start_offset b) of
        Inl e \<Rightarrow> Inl e
      | Inr pos \<Rightarrow> read s pos (size_blk b))"

text \<open>\<^verbatim>\<open>SectionDiff\<close> and its \<^verbatim>\<open>has_changes\<close>.\<close>

record SectionDiff =
  headers :: "unit DictDiff option"
  data_sizes :: "(int \<times> int) option"
  data_diff_offset :: int

definition has_changes_section :: "SectionDiff \<Rightarrow> bool" where
  "has_changes_section d \<longleftrightarrow>
     \<not> (headers d = None \<and> data_sizes d = None \<and> data_diff_offset d = - 1)"

record AllSectionsDiff =
  left_new_sections :: "pykey pyset"
  right_new_sections :: "pykey pyset"
  modified_sections :: "(pykey \<times> SectionDiff) list"

definition has_changes_sections :: "AllSectionsDiff \<Rightarrow> bool" where
  "has_changes_sections d \<longleftrightarrow>
     left_new_sections d \<noteq> [] \<or> right_new_sections d \<noteq> [] \<or> modified_sections d \<noteq> []"

text \<open>\<^verbatim>\<open>NotUsedBlockDiff\<close> and its \<^verbatim>\<open>has_changes\<close>.\<close>

record NotUsedBlockDiff =
  left_block :: "Block option"
  right_block :: "Block option"
  data_sizes_blk :: "(int \<times> int) option"
  data_diff_offset_blk :: int

definition has_changes_block :: "NotUsedBlockDiff \<Rightarrow> bool" where
  "has_changes_block d \<longleftrightarrow> data_sizes_blk d \<noteq> None \<or> data_diff_offset_blk d \<noteq> - 1"

text \<open>
  The default arguments of \<^verbatim>\<open>AllBlocksDiff.__init__\<close> are list objects made once, when
  the class is defined, and every \<^verbatim>\<open>AllBlocksDiff()\<close> built without arguments holds
  those same objects. The two overlap attributes are rebound by assignment and are
  kept by value. \<^verbatim>\<open>diffs_in_not_used\<close> is appended to in place, so the attribute is a
  reference and the list it names lives in the store.
\<close>

datatype list_ref = Default_diffs_in_not_used

type_synonym store = "list_ref \<Rightarrow> NotUsedBlockDiff list"

text \<open>The store when the module has just been imported: the default list is empty.\<close>

definition initial_store :: store where
  "initial_store = (\<lambda>r. [])"

record AllBlocksDiff =
  left_overlaps_in_used :: "(Block \<times> Block) list"
  right_overlaps_in_used :: "(Block \<times> Block) list"
  counts_of_not_used :: "(int \<times> int) option"
  diffs_in_not_used :: list_ref

text \<open>\<^verbatim>\<open>AllBlocksDiff()\<close> with no argument.\<close>

definition new_AllBlocksDiff :: AllBlocksDiff where
  "new_AllBlocksDiff =
     \<lparr>left_overlaps_in_used = [], right_overlaps_in_used = [],
      counts_of_not_used = None, diffs_in_not_used = Default_diffs_in_not_used\<rparr>"

definition has_changes_blocks :: "store \<Rightarrow> AllBlocksDiff \<Rightarrow> bool" where
  "has_changes_blocks st d \<longleftrightarrow>
     left_overlaps_in_used d \<noteq> [] \<or> right_overlaps_in_used d \<noteq> [] \<or>
     counts_of_not_used d \<noteq> None \<or> st (diffs_in_not_used d) \<noteq> []"

section \<open>The comparable file and the occupancy model (elfcmp.py)\<close>

text \<open>
  \<^verbatim>\<open>_group_segments\<close>: a dictionary from segment type to the dictionary from offset to
  segment header.
\<close>

definition group_segments :: "Segment list \<Rightarrow> plain_dict" where
  "group_segments segs =
     fold (\<lambda>segm result.
             let type = p_type segm; offset = p_offset segm
             in case map_of result type of
                  None \<Rightarrow> AList.update type (VDict [(KInt offset, VDict (segment_header segm))]) result
                | Some inner \<Rightarrow>
                    AList.update type
                      (VDict (AList.update (KInt offset) (VDict (segment_header segm)) (items inner)))
                      result)
          segs []"

text \<open>
  \<^verbatim>\<open>ComparableElf\<close>: the inherited \<^verbatim>\<open>ELFFile\<close> and the attributes \<^verbatim>\<open>read_metadata\<close>
  sets. \<open>None\<close> is an attribute not set yet. The attributes \<^verbatim>\<open>other\<close> and
  \<^verbatim>\<open>compare_result\<close> are rebound at the start of each \<^verbatim>\<open>compare_to\<close>; the model passes
  \<open>other\<close> as an argument and returns the result.
\<close>

record ComparableElf =
  elffile :: ELFFile
  header_raw :: plain_dict
  sections :: "Section list"
  segments :: "Segment list"
  used_blocks :: "Block list option"
  not_used_blocks :: "Block list option"

definition file_size :: "ComparableElf \<Rightarrow> int" where
  "file_size self = int (length (content (stream (elffile self))))"

text \<open>
  \<^verbatim>\<open>_get_used_blocks\<close>: the three table blocks, then one block for each section that is
  not skipped, sorted by start offset. Python's \<^verbatim>\<open>list.sort\<close> is stable, as
  \<open>sort_key\<close> is. The result is returned and stored in \<^verbatim>\<open>self.used_blocks\<close>.
\<close>

definition get_used_blocks :: "ComparableElf \<Rightarrow> Block list \<times> ComparableElf" where
  "get_used_blocks self =
     (let elf = elffile self;
          result =
            [mk_Block 0 (e_ehsize elf) ELF_HEADER (HeaderObject (header_raw self)),
             mk_Block (e_phoff elf) (e_phentsize elf * e_phnum elf) PROGRAM_HEADER_TABLE NoObject,
             mk_Block (e_shoff elf) (e_shentsize elf * e_shnum elf) SECTION_HEADER_TABLE NoObject];
          result =
            fold (\<lambda>section result.
                    if sh_size section = 0 \<or> is_null section
                       \<or> sh_type section \<in> {''SHT_NOBITS'', ''SHT_NULL''}
                    then result
                    else result @ [mk_Block (sh_offset section) (sh_size section) SECTION
                                     (SectionObject section)])
                 (sections self) result;
          result = sort_key start_offset result
      in (result, self\<lparr>used_blocks := Some result\<rparr>))"

text \<open>
  The loop \<^verbatim>\<open>for i in range(len(used_blocks) - 1)\<close> of \<^verbatim>\<open>_get_not_used_blocks\<close>; the
  index \<open>i\<close> is in that range exactly when \<open>Suc i < length used_blocks\<close>.
\<close>

function not_used_loop :: "Block list \<Rightarrow> nat \<Rightarrow> Block list \<Rightarrow> Block list" where
  "not_used_loop blocks i result =
     (if Suc i < length blocks
      then (let cur_block = blocks ! i; next_block = blocks ! (i + 1)
            in if end_offset cur_block \<ge> start_offset next_block
               then not_used_loop blocks (Suc i) result
               else not_used_loop blocks (Suc i)
                      (result @ [mk_Block (end_offset cur_block)
                                   (start_offset next_block - end_offset cur_block)
                                   NOT_USED NoObject]))
      else result)"
  by pat_completeness auto
termination
  by (relation "measure (\<lambda>(blocks, i, result). length blocks - i)") auto

declare not_used_loop.simps [simp del]

text \<open>
  The body of \<^verbatim>\<open>_get_not_used_blocks\<close> once \<^verbatim>\<open>used_blocks\<close> is at hand.
  \<^verbatim>\<open>used_blocks[-1]\<close> raises \<^verbatim>\<open>IndexError\<close> on an empty list.
\<close>

definition not_used_blocks_of :: "Block list \<Rightarrow> int \<Rightarrow> error + Block list" where
  "not_used_blocks_of blocks fsize =
     (let result = [];
          result = (if length blocks > 1 then not_used_loop blocks 0 result else result)
      in case blocks of
           [] \<Rightarrow> Inl IndexError
         | _ \<Rightarrow>
           (let last_used_block = last blocks;
                result =
                  (if end_offset last_used_block < fsize
                   then result @ [mk_Block (end_offset last_used_block)
                                    (fsize - end_offset last_used_block) NOT_USED NoObject]
                   else result)
            in Inr (sort_key start_offset result)))"

text \<open>
  \<^verbatim>\<open>_get_not_used_blocks\<close>: computes the used blocks first when they are not set, and
  stores its result in \<^verbatim>\<open>self.not_used_blocks\<close>.
\<close>

definition get_not_used_blocks :: "ComparableElf \<Rightarrow> error + Block list \<times> ComparableElf" where
  "get_not_used_blocks self =
     (let self = (if used_blocks self = None then snd (get_used_blocks self) else self)
      in case used_blocks self of
           None \<Rightarrow> Inl TypeError
         | Some blocks \<Rightarrow>
           (case not_used_blocks_of blocks (file_size self) of
              Inl e \<Rightarrow> Inl e
            | Inr result \<Rightarrow> Inr (result, self\<lparr>not_used_blocks := Some result\<rparr>)))"

text \<open>
  \<^verbatim>\<open>read_metadata\<close>, called by the constructor: flattens \<^verbatim>\<open>e_ident\<close> into
  \<^verbatim>\<open>header_raw\<close>, lists sections and segments, computes both block lists.
\<close>

definition flatten_header :: "plain_dict \<Rightarrow> error + plain_dict" where
  "flatten_header h =
     (case map_of h (KStr ''e_ident'') of
        None \<Rightarrow> Inl KeyError
      | Some ident \<Rightarrow>
          if is_Mapping ident
          then Inr (fold (\<lambda>(k, v). AList.update k v) (items ident)
                      (filter (\<lambda>(k, v). k \<noteq> KStr ''e_ident'') h))
          else Inl AttributeError)"

definition read_metadata :: "ELFFile \<Rightarrow> error + ComparableElf" where
  "read_metadata elf =
     (case flatten_header (elf_header elf) of
        Inl e \<Rightarrow> Inl e
      | Inr raw \<Rightarrow>
          (let self = \<lparr>elffile = elf, header_raw = raw, sections = iter_sections elf,
                       segments = iter_segments elf, used_blocks = None,
                       not_used_blocks = None\<rparr>;
               self = snd (get_used_blocks self)
           in case get_not_used_blocks self of
                Inl e \<Rightarrow> Inl e
              | Inr (result, self) \<Rightarrow> Inr self))"

text \<open>
  The loop of \<^verbatim>\<open>_check_overlapped_blocks\<close>, over the same index range.
\<close>

function overlapped_loop :: "Block list \<Rightarrow> nat \<Rightarrow> (Block \<times> Block) list \<Rightarrow> (Block \<times> Block) list" where
  "overlapped_loop blocks i result =
     (if Suc i < length blocks
      then (let cur_block = blocks ! i; next_block = blocks ! (i + 1)
            in if last_offset cur_block > start_offset next_block
               then overlapped_loop blocks (Suc i) (result @ [(cur_block, next_block)])
               else overlapped_loop blocks (Suc i) result)
      else result)"
  by pat_completeness auto
termination
  by (relation "measure (\<lambda>(blocks, i, result). length blocks - i)") auto

declare overlapped_loop.simps [simp del]

definition check_overlapped_blocks :: "Block list \<Rightarrow> (Block \<times> Block) list" where
  "check_overlapped_blocks blocks = overlapped_loop blocks 0 []"

section \<open>The comparison steps (elfcmp.py)\<close>

definition compare_segments :: "ComparableElf \<Rightarrow> ComparableElf \<Rightarrow> unit DictDiff" where
  "compare_segments self other =
     (let left_segments = group_segments (segments self);
          right_segments = group_segments (segments other)
      in compare_dict left_segments right_segments True True False py_eq)"

text \<open>The dictionary \<^verbatim>\<open>{s.name : s for s in sections}\<close>: a later section of the same name
  replaces the earlier one.\<close>

definition sections_dict :: "Section list \<Rightarrow> (pykey \<times> Section) list" where
  "sections_dict ss = fold (\<lambda>s d. AList.update (KStr (name s)) s d) ss []"

text \<open>\<^verbatim>\<open>compared_headers.modified.pop(key, None)\<close>.\<close>

definition pop_modified :: "pykey \<Rightarrow> 'o DictDiff \<Rightarrow> 'o DictDiff" where
  "pop_modified key d =
     DictDiff (left_new d) (right_new d) (common_keys d) (AList.delete key (modified d)) (same d)"

text \<open>
  The body of the loop of \<^verbatim>\<open>_compare_sections\<close> for one common name, up to the
  \<^verbatim>\<open>SectionDiff\<close> it builds.
\<close>

definition compare_section :: "Section \<Rightarrow> Section \<Rightarrow> SectionDiff" where
  "compare_section section_1 section_2 =
     (let header_1 = header section_1;
          header_2 = header section_2;
          compared_headers = compare_dict header_1 header_2 False True False py_eq;
          compared_headers = pop_modified (KStr ''sh_name'') compared_headers;
          data_1 = section_data section_1;
          data_2 = section_data section_2;
          len_1 = int (length data_1);
          len_2 = int (length data_2);
          diff_index = locate_array_diff data_1 data_2
      in \<lparr>headers = (if has_changes compared_headers then Some compared_headers else None),
          data_sizes = (if len_1 \<noteq> len_2 then Some (len_1, len_2) else None),
          data_diff_offset = diff_index\<rparr>)"

text \<open>
  \<^verbatim>\<open>_compare_sections\<close>. The first \<^verbatim>\<open>compare_dict\<close> sees the sections as objects that
  are not mappings and whose \<^verbatim>\<open>__eq__\<close>, in the parser, is the equality of their
  header mappings; the header mapping of a section stands for the section there. The
  loop runs over the common names; both lookups succeed there and the last branch of
  the case is never taken.
\<close>

definition compare_sections :: "ComparableElf \<Rightarrow> ComparableElf \<Rightarrow> AllSectionsDiff" where
  "compare_sections self other =
     (let sections_dict_1 = sections_dict (sections self);
          sections_dict_2 = sections_dict (sections other);
          compared_section_names =
            compare_dict (map (\<lambda>(k, s). (k, VObject (map_of (header s)))) sections_dict_1)
                         (map (\<lambda>(k, s). (k, VObject (map_of (header s)))) sections_dict_2)
                         True False True py_eq;
          common_section_names = common_keys compared_section_names;
          modified_sections =
            fold (\<lambda>section_name modified_sections.
                    case (map_of sections_dict_1 section_name,
                          map_of sections_dict_2 section_name) of
                      (Some section_1, Some section_2) \<Rightarrow>
                        (let compared_section = compare_section section_1 section_2
                         in if has_changes_section compared_section
                            then AList.update section_name compared_section modified_sections
                            else modified_sections)
                    | _ \<Rightarrow> modified_sections)
                 common_section_names []
      in \<lparr>left_new_sections = left_new compared_section_names,
          right_new_sections = right_new compared_section_names,
          modified_sections = modified_sections\<rparr>)"

text \<open>
  The loop of \<^verbatim>\<open>_compare_blocks\<close> over the paired not-used blocks. Each
  \<^verbatim>\<open>result.diffs_in_not_used.append(block_diff)\<close> writes to the list the attribute
  refers to, in the store.
\<close>

fun compare_not_used ::
  "Stream \<Rightarrow> Stream \<Rightarrow> (Block \<times> Block) list \<Rightarrow> AllBlocksDiff \<Rightarrow> store \<Rightarrow> error + store"
where
  "compare_not_used s1 s2 [] result st = Inr st"
| "compare_not_used s1 s2 ((block_1, block_2) # rest) result st =
     (case data s1 block_1 of
        Inl e \<Rightarrow> Inl e
      | Inr data_1 \<Rightarrow>
        (case data s2 block_2 of
           Inl e \<Rightarrow> Inl e
         | Inr data_2 \<Rightarrow>
           (let block_diff = \<lparr>left_block = None, right_block = None,
                              data_sizes_blk = None, data_diff_offset_blk = - 1\<rparr>;
                block_diff =
                  (if size_blk block_1 \<noteq> size_blk block_2
                   then block_diff\<lparr>data_sizes_blk := Some (size_blk block_1, size_blk block_2)\<rparr>
                   else block_diff);
                block_diff = block_diff\<lparr>data_diff_offset_blk := locate_array_diff data_1 data_2\<rparr>
            in if has_changes_block block_diff
               then (let block_diff = block_diff\<lparr>left_block := Some block_1,
                                                 right_block := Some block_2\<rparr>;
                         r = diffs_in_not_used result
                     in compare_not_used s1 s2 rest result (st(r := st r @ [block_diff])))
               else compare_not_used s1 s2 rest result st)))"

text \<open>
  \<^verbatim>\<open>_compare_blocks\<close>. Both calls of \<^verbatim>\<open>_check_overlapped_blocks\<close> are given the
  \<^verbatim>\<open>not_used_blocks\<close> of their file. \<^verbatim>\<open>len(None)\<close> raises \<^verbatim>\<open>TypeError\<close>.
\<close>

definition compare_blocks ::
  "store \<Rightarrow> ComparableElf \<Rightarrow> ComparableElf \<Rightarrow> error + AllBlocksDiff \<times> store"
where
  "compare_blocks st self other =
     (case (not_used_blocks self, not_used_blocks other) of
        (Some not_used_1, Some not_used_2) \<Rightarrow>
          (let result = new_AllBlocksDiff;
               not_used_blocks_counts = (int (length not_used_1), int (length not_used_2));
               step =
                 (if fst not_used_blocks_counts = snd not_used_blocks_counts
                  then (case compare_not_used (stream (elffile self)) (stream (elffile other))
                               (zip not_used_1 not_used_2) result st of
                          Inl e \<Rightarrow> Inl e
                        | Inr st' \<Rightarrow> Inr (result, st'))
                  else Inr (result\<lparr>counts_of_not_used := Some not_used_blocks_counts\<rparr>, st))
           in case step of
                Inl e \<Rightarrow> Inl e
              | Inr (result, st') \<Rightarrow>
                  Inr (result\<lparr>left_overlaps_in_used := check_overlapped_blocks not_used_1,
                              right_overlaps_in_used := check_overlapped_blocks not_used_2\<rparr>,
                       st'))
      | _ \<Rightarrow> Inl TypeError)"

text \<open>\<^verbatim>\<open>ElfDiff\<close>, with every attribute \<^verbatim>\<open>compare_to\<close> assigns.\<close>

record ElfDiff =
  left_elf :: ComparableElf
  right_elf :: ComparableElf
  compared_elf_headers :: "unit DictDiff"
  compared_segments :: "unit DictDiff"
  compared_sections :: AllSectionsDiff
  compared_blocks :: AllBlocksDiff

definition compare_to :: "store \<Rightarrow> ComparableElf \<Rightarrow> ComparableElf \<Rightarrow> error + ElfDiff \<times> store" where
  "compare_to st self other =
     (let headers_diff = compare_dict (header_raw self) (header_raw other) False True False py_eq;
          segments_diff = compare_segments self other;
          sections_diff = compare_sections self other
      in case compare_blocks st self other of
           Inl e \<Rightarrow> Inl e
         | Inr (blocks_diff, st') \<Rightarrow>
             Inr (\<lparr>left_elf = self, right_elf = other,
                   compared_elf_headers = headers_diff,
                   compared_segments = segments_diff,
                   compared_sections = sections_diff,
                   compared_blocks = blocks_diff\<rparr>, st'))"

text \<open>
  What a caller reads in the occupancy part of a report: the attributes kept by value,
  and the list the \<^verbatim>\<open>diffs_in_not_used\<close> reference names in the store at that moment.
\<close>

definition read_diffs_in_not_used :: "store \<Rightarrow> ElfDiff \<Rightarrow> NotUsedBlockDiff list" where
  "read_diffs_in_not_used st r = st (diffs_in_not_used (compared_blocks r))"

section \<open>Names used in the statements below\<close>

text \<open>The gap the loop of \<^verbatim>\<open>_get_not_used_blocks\<close> appends at index \<open>i\<close>, and the gap
  it appends after the last used block.\<close>

definition gap_between :: "Block list \<Rightarrow> nat \<Rightarrow> Block" where
  "gap_between blocks i =
     mk_Block (end_offset (blocks ! i)) (start_offset (blocks ! Suc i) - end_offset (blocks ! i))
       NOT_USED NoObject"

definition trailing_gap :: "Block list \<Rightarrow> int \<Rightarrow> Block" where
  "trailing_gap blocks fsize =
     mk_Block (end_offset (last blocks)) (fsize - end_offset (last blocks)) NOT_USED NoObject"

text \<open>
  Small files for concrete instances: a parsed file with an empty \<^verbatim>\<open>e_ident\<close>, one
  entry in each table and the given offsets, sizes, sections and bytes, read from an
  \<^verbatim>\<open>io.BytesIO\<close>; and the object before \<^verbatim>\<open>read_metadata\<close> has computed its blocks.
\<close>

definition example_file ::
  "int \<Rightarrow> int \<Rightarrow> int \<Rightarrow> int \<Rightarrow> int \<Rightarrow> Section list \<Rightarrow> byte list \<Rightarrow> ELFFile" where
  "example_file ehsize phoff phsize shoff shsize secs bytes =
     \<lparr>elf_header = [(KStr ''e_ident'', VDict [])],
      e_ehsize = ehsize, e_phoff = phoff, e_phentsize = phsize, e_phnum = 1,
      e_shoff = shoff, e_shentsize = shsize, e_shnum = 1,
      iter_sections = secs, iter_segments = [], stream = BytesIO bytes\<rparr>"

definition unread :: "ELFFile \<Rightarrow> ComparableElf" where
  "unread elf = \<lparr>elffile = elf, header_raw = [], sections = iter_sections elf,
                  segments = iter_segments elf, used_blocks = None, not_used_blocks = None\<rparr>"

text \<open>The blocks \<^verbatim>\<open>_get_used_blocks\<close> collects before sorting: the three table blocks,
  then the blocks of the sections that are not skipped.\<close>

definition section_blocks :: "Section list \<Rightarrow> Block list" where
  "section_blocks ss =
     map (\<lambda>section. mk_Block (sh_offset section) (sh_size section) SECTION (SectionObject section))
       (filter (\<lambda>section. \<not> (sh_size section = 0 \<or> is_null section
                   \<or> sh_type section \<in> {''SHT_NOBITS'', ''SHT_NULL''})) ss)"

definition table_blocks :: "ComparableElf \<Rightarrow> Block list" where
  "table_blocks self =
     [mk_Block 0 (e_ehsize (elffile self)) ELF_HEADER (HeaderObject (header_raw self)),
      mk_Block (e_phoff (elffile self)) (e_phentsize (elffile self) * e_phnum (elffile self))
        PROGRAM_HEADER_TABLE NoObject,
      mk_Block (e_shoff (elffile self)) (e_shentsize (elffile self) * e_shnum (elffile self))
        SECTION_HEADER_TABLE NoObject]"

text \<open>A section of type \<^verbatim>\<open>SHT_PROGBITS\<close> with the given name, offset and bytes.\<close>

definition example_section :: "string \<Rightarrow> int \<Rightarrow> byte list \<Rightarrow> Section" where
  "example_section nm off bytes =
     \<lparr>name = nm, header = [(KStr ''sh_name'', VInt 1), (KStr ''sh_offset'', VInt off),
                           (KStr ''sh_size'', VInt (int (length bytes)))],
      sh_offset = off, sh_size = int (length bytes), sh_type = ''SHT_PROGBITS'',
      is_null = False, section_data = bytes\<rparr>"

section \<open>Properties of the first-difference primitive\<close>

lemma locate_loop_None:
  "locate_loop a b i n = None \<longleftrightarrow> (\<forall>j. i \<le> j \<and> j < n \<longrightarrow> a ! j = b ! j)"
proof (induction a b i n rule: locate_loop.induct)
  case (1 a b i n)
  show ?case
  proof (cases "i < n")
    case False
    then show ?thesis by (auto simp: locate_loop.simps[of a b i n])
  next
    case True
    note lt = this
    show ?thesis
    proof (cases "a ! i = b ! i")
      case False
      with lt show ?thesis by (auto simp: locate_loop.simps[of a b i n])
    next
      case True
      have "(\<forall>j. i \<le> j \<and> j < n \<longrightarrow> a ! j = b ! j) \<longleftrightarrow> (\<forall>j. Suc i \<le> j \<and> j < n \<longrightarrow> a ! j = b ! j)"
        using True by (metis Suc_leI le_neq_implies_less Suc_leD)
      with lt True 1 show ?thesis by (simp add: locate_loop.simps[of a b i n])
    qed
  qed
qed

lemma locate_loop_Some:
  "locate_loop a b i n = Some k \<longleftrightarrow>
     (i \<le> k \<and> k < n \<and> a ! k \<noteq> b ! k \<and> (\<forall>j. i \<le> j \<and> j < k \<longrightarrow> a ! j = b ! j))"
proof (induction a b i n rule: locate_loop.induct)
  case (1 a b i n)
  show ?case
  proof (cases "i < n")
    case False
    then show ?thesis by (auto simp: locate_loop.simps[of a b i n])
  next
    case True
    note lt = this
    show ?thesis
    proof (cases "a ! i = b ! i")
      case False
      with lt show ?thesis
        by (auto simp: locate_loop.simps[of a b i n])
    next
      case True
      have "(i \<le> k \<and> k < n \<and> a ! k \<noteq> b ! k \<and> (\<forall>j. i \<le> j \<and> j < k \<longrightarrow> a ! j = b ! j))
        \<longleftrightarrow> (Suc i \<le> k \<and> k < n \<and> a ! k \<noteq> b ! k \<and> (\<forall>j. Suc i \<le> j \<and> j < k \<longrightarrow> a ! j = b ! j))"
        using True by (metis Suc_leI le_neq_implies_less Suc_leD)
      with lt True 1 show ?thesis by (simp add: locate_loop.simps[of a b i n])
    qed
  qed
qed

lemma locate_array_diff_first:
  assumes "i < min (length a) (length b)" "a ! i \<noteq> b ! i" "\<forall>j<i. a ! j = b ! j"
  shows "locate_array_diff a b = int i"
proof -
  have "locate_loop a b 0 (min (length a) (length b)) = Some i"
    using assms by (simp add: locate_loop_Some)
  then show ?thesis by (simp add: locate_array_diff_def Let_def)
qed

lemma locate_array_diff_prefix:
  assumes "\<forall>k<min (length a) (length b). a ! k = b ! k"
  shows "locate_array_diff a b = (if length a \<noteq> length b then int (min (length a) (length b)) else - 1)"
proof -
  have "locate_loop a b 0 (min (length a) (length b)) = None"
    using assms by (simp add: locate_loop_None)
  then show ?thesis by (simp add: locate_array_diff_def Let_def)
qed

text \<open>
  C4. For all byte sequences \<open>a\<close> and \<open>b\<close>, \<open>locate_array_diff a b\<close> is the first index
  below the shorter length at which the sequences differ, when there is one; otherwise
  it is the shorter length when the lengths differ, and \<open>-1\<close> when they are equal. It is
  \<open>-1\<close> on two empty sequences and \<open>0\<close> when exactly one of the two is empty.
\<close>

theorem locate_array_diff_spec:
  "(i < min (length a) (length b) \<and> a ! i \<noteq> b ! i \<and> (\<forall>j<i. a ! j = b ! j)
      \<longrightarrow> locate_array_diff a b = int i)
   \<and> ((\<forall>k<min (length a) (length b). a ! k = b ! k) \<and> length a \<noteq> length b
      \<longrightarrow> locate_array_diff a b = int (min (length a) (length b)))
   \<and> ((\<forall>k<min (length a) (length b). a ! k = b ! k) \<and> length a = length b
      \<longrightarrow> locate_array_diff a b = - 1)
   \<and> locate_array_diff [] [] = - 1
   \<and> (a \<noteq> [] \<longrightarrow> locate_array_diff [] a = 0 \<and> locate_array_diff a [] = 0)"
proof (intro conjI impI)
  assume "i < min (length a) (length b) \<and> a ! i \<noteq> b ! i \<and> (\<forall>j<i. a ! j = b ! j)"
  then show "locate_array_diff a b = int i" by (simp add: locate_array_diff_first)
next
  assume "(\<forall>k<min (length a) (length b). a ! k = b ! k) \<and> length a \<noteq> length b"
  then show "locate_array_diff a b = int (min (length a) (length b))"
    by (simp add: locate_array_diff_prefix)
next
  assume "(\<forall>k<min (length a) (length b). a ! k = b ! k) \<and> length a = length b"
  then show "locate_array_diff a b = - 1"
    by (simp add: locate_array_diff_prefix)
next
  show "locate_array_diff [] [] = - 1" by (simp add: locate_array_diff_prefix)
next
  assume "a \<noteq> []"
  then show "locate_array_diff [] a = 0" by (simp add: locate_array_diff_prefix)
next
  assume "a \<noteq> []"
  then show "locate_array_diff a [] = 0" by (simp add: locate_array_diff_prefix)
qed

theorem locate_array_diff_spec_witness:
  "locate_array_diff [1, 2, 3] [1, 1, 3, 4] = 1
   \<and> locate_array_diff [1, 2, 3] [1, 2, 3, 4] = 3
   \<and> locate_array_diff [1, 2, 3] [1, 2, 3] = - 1
   \<and> locate_array_diff [] [7] = 0 \<and> locate_array_diff [7] [] = 0"
proof -
  have all3: "\<And>P. (\<forall>k<Suc (Suc (Suc 0)). P k) \<longleftrightarrow> P 0 \<and> P (Suc 0) \<and> P (Suc (Suc 0))"
    by (auto simp: less_Suc_eq)
  show ?thesis
    using locate_array_diff_spec [of 1 "[1, 2, 3]" "[1, 1, 3, 4]"]
          locate_array_diff_spec [of 0 "[1, 2, 3]" "[1, 2, 3, 4]"]
          locate_array_diff_spec [of 0 "[1, 2, 3]" "[1, 2, 3]"]
          locate_array_diff_spec [of 0 "[7]"]
    by (simp add: all3)
qed

section \<open>Properties of the associative diff\<close>

lemma set_keys [simp]: "set (keys d) = fst ` set d"
  by (simp add: keys_def)

lemma set_intersection [simp]: "set (intersection a b) = set a \<inter> set b"
  by (auto simp: intersection_def)

lemma set_difference [simp]: "set (difference a b) = set a - set b"
  by (auto simp: difference_def)

lemma set_add [simp]: "set (add k s) = insert k (set s)"
  by (auto simp: add_def)

lemma fst_set_update [simp]: "fst ` set (AList.update k v m) = insert k (fst ` set m)"
proof -
  have "fst ` set (AList.update k v m) = set (map fst (AList.update k v m))" by simp
  also have "\<dots> = insert k (fst ` set m)" unfolding update_keys by auto
  finally show ?thesis .
qed

lemma fst_set_delete [simp]: "fst ` set (AList.delete k m) = fst ` set m - {k}"
proof -
  have "fst ` set (AList.delete k m) = set (map fst (AList.delete k m))" by simp
  also have "\<dots> = fst ` set m - {k}" unfolding delete_keys by auto
  finally show ?thesis .
qed

lemma compare_fold_keys:
  fixes g :: "'o pyval \<Rightarrow> 'o pyval \<Rightarrow> 'o modified_value"
    and d1 d2 :: "'o pydict" and deep include_modified include_same :: bool
    and compare_function :: "'o pyval \<Rightarrow> 'o pyval \<Rightarrow> bool"
  defines "step \<equiv> (\<lambda>key (same, modified).
                    case (map_of d1 key, map_of d2 key) of
                      (Some value_1, Some value_2) \<Rightarrow>
                        if compare_function value_1 value_2
                        then (if include_same then (add key same, modified) else (same, modified))
                        else if include_modified
                        then (if deep \<and> is_Mapping value_1 \<and> is_Mapping value_2
                              then (same, AList.update key (g value_1 value_2) modified)
                              else (same, AList.update key (Tuple value_1 value_2) modified))
                        else (same, modified)
                    | _ \<Rightarrow> (same, modified))"
  shows "set (fst (fold step ks (s, m))) =
           set s \<union> {k \<in> set ks. include_same \<and>
                       (\<exists>v1 v2. map_of d1 k = Some v1 \<and> map_of d2 k = Some v2 \<and> compare_function v1 v2)}
         \<and> fst ` set (snd (fold step ks (s, m))) =
           fst ` set m \<union> {k \<in> set ks. include_modified \<and>
                       (\<exists>v1 v2. map_of d1 k = Some v1 \<and> map_of d2 k = Some v2 \<and> \<not> compare_function v1 v2)}"
proof (induction ks arbitrary: s m)
  case Nil
  show ?case by simp
next
  case (Cons k ks)
  obtain s' m' where st: "step k (s, m) = (s', m')" by (cases "step k (s, m)")
  have s': "set s' = set s \<union> {x. x = k \<and> include_same \<and>
                       (\<exists>v1 v2. map_of d1 k = Some v1 \<and> map_of d2 k = Some v2 \<and> compare_function v1 v2)}"
    using st by (auto simp: step_def split: option.splits if_splits)
  define P where "P \<longleftrightarrow> include_modified \<and>
      (\<exists>v1 v2. map_of d1 k = Some v1 \<and> map_of d2 k = Some v2 \<and> \<not> compare_function v1 v2)"
  have "(P \<and> (\<exists>v. m' = AList.update k v m)) \<or> (\<not> P \<and> m' = m)"
    using st unfolding P_def by (auto simp: step_def split: option.splits if_splits)
  then have "fst ` set m' = fst ` set m \<union> {x. x = k \<and> P}"
    by (elim disjE conjE exE; simp)
  then have m': "fst ` set m' = fst ` set m \<union> {x. x = k \<and> include_modified \<and>
                       (\<exists>v1 v2. map_of d1 k = Some v1 \<and> map_of d2 k = Some v2 \<and> \<not> compare_function v1 v2)}"
    unfolding P_def .
  have eq: "fold step (k # ks) (s, m) = fold step ks (s', m')" by (simp add: st)
  show ?case
    unfolding eq Cons.IH [of s' m', THEN conjunct1] Cons.IH [of s' m', THEN conjunct2] s' m'
    by auto
qed


lemma compare_dict_keys:
  "set (left_new (compare_dict d1 d2 deep im isame cf)) = fst ` set d1 - fst ` set d2"
  "set (right_new (compare_dict d1 d2 deep im isame cf)) = fst ` set d2 - fst ` set d1"
  "set (common_keys (compare_dict d1 d2 deep im isame cf)) = fst ` set d1 \<inter> fst ` set d2"
  by (simp_all add: compare_dict.simps [of d1 d2 deep im isame cf] Let_def split: prod.splits)

lemma compare_dict_common_keys:
  "common_keys (compare_dict d1 d2 deep im isame cf) = intersection (keys d1) (keys d2)"
  by (simp add: compare_dict.simps [of d1 d2 deep im isame cf] Let_def split: prod.splits)

lemma compare_dict_same_modified:
  fixes d1 d2 :: "'o pydict"
  shows "set (same (compare_dict d1 d2 deep im isame cf)) =
           {k \<in> fst ` set d1 \<inter> fst ` set d2. isame \<and>
              (\<exists>v1 v2. map_of d1 k = Some v1 \<and> map_of d2 k = Some v2 \<and> cf v1 v2)}
         \<and> fst ` set (modified (compare_dict d1 d2 deep im isame cf)) =
           {k \<in> fst ` set d1 \<inter> fst ` set d2. im \<and>
              (\<exists>v1 v2. map_of d1 k = Some v1 \<and> map_of d2 k = Some v2 \<and> \<not> cf v1 v2)}"
proof -
  let ?g = "\<lambda>v1 v2 :: 'o pyval. Nested (compare_dict (items v1) (items v2) deep True isame py_eq)"
  note F = compare_fold_keys [where g = ?g and ?d1.0 = d1 and ?d2.0 = d2 and deep = deep
      and include_modified = im and include_same = isame and compare_function = cf
      and ks = "intersection (keys d1) (keys d2)" and s = "[]" and m = "[]"]
  show ?thesis
    using F
    by (simp add: compare_dict.simps [of d1 d2 deep im isame cf] Let_def split: prod.splits)
       (metis fst_conv snd_conv)
qed



text \<open>
  With \<^verbatim>\<open>include_same=False\<close> a key whose two values are equal is in \<^verbatim>\<open>common_keys\<close>
  and in neither \<^verbatim>\<open>same\<close> nor \<^verbatim>\<open>modified\<close>.
\<close>

theorem compare_dict_common_counterexample:
  "\<not> (set (common_keys (compare_dict [(KStr ''a'', VInt 1)] [(KStr ''a'', VInt 1 :: unit pyval)]
                           False True False py_eq))
        = set (same (compare_dict [(KStr ''a'', VInt 1)] [(KStr ''a'', VInt 1 :: unit pyval)]
                           False True False py_eq))
          \<union> fst ` set (modified (compare_dict [(KStr ''a'', VInt 1)] [(KStr ''a'', VInt 1 :: unit pyval)]
                           False True False py_eq)))"
  by (simp add: compare_dict.simps [of "[(KStr ''a'', VInt 1)]" "[(KStr ''a'', VInt 1)]" False True False]
                keys_def intersection_def difference_def)

text \<open>
  C9 (as amended). For every pair of dictionaries, every setting of the flags and every
  comparison function: \<^verbatim>\<open>left_new\<close> and \<^verbatim>\<open>common_keys\<close> together are the keys of the left
  dictionary, \<^verbatim>\<open>right_new\<close> and \<^verbatim>\<open>common_keys\<close> together are the keys of the right one,
  \<^verbatim>\<open>left_new\<close> and \<^verbatim>\<open>right_new\<close> are disjoint, and \<^verbatim>\<open>same\<close> and the keys of
  \<^verbatim>\<open>modified\<close> lie within \<^verbatim>\<open>common_keys\<close>. When \<^verbatim>\<open>include_same\<close> and
  \<^verbatim>\<open>include_modified\<close> are both set, \<^verbatim>\<open>common_keys\<close> is exactly \<^verbatim>\<open>same\<close> together with
  the keys of \<^verbatim>\<open>modified\<close>.
\<close>

theorem compare_dict_invariant:
  "(let r = compare_dict d1 d2 deep include_modified include_same compare_function
    in set (left_new r) \<union> set (common_keys r) = fst ` set d1
       \<and> set (right_new r) \<union> set (common_keys r) = fst ` set d2
       \<and> set (left_new r) \<inter> set (right_new r) = {}
       \<and> set (same r) \<union> fst ` set (modified r) \<subseteq> set (common_keys r)
       \<and> (include_same \<and> include_modified
            \<longrightarrow> set (common_keys r) = set (same r) \<union> fst ` set (modified r)))"
proof -
  let ?r = "compare_dict d1 d2 deep include_modified include_same compare_function"
  note K = compare_dict_keys [of d1 d2 deep include_modified include_same compare_function]
  note S = compare_dict_same_modified [of d1 d2 deep include_modified include_same compare_function,
              THEN conjunct1]
  note M = compare_dict_same_modified [of d1 d2 deep include_modified include_same compare_function,
              THEN conjunct2]
  have a: "set (left_new ?r) \<union> set (common_keys ?r) = fst ` set d1" unfolding K by blast
  have b: "set (right_new ?r) \<union> set (common_keys ?r) = fst ` set d2" unfolding K by blast
  have c: "set (left_new ?r) \<inter> set (right_new ?r) = {}" unfolding K by blast
  have d: "set (same ?r) \<union> fst ` set (modified ?r) \<subseteq> set (common_keys ?r)"
    unfolding K S M by blast
  have e: "set (common_keys ?r) = set (same ?r) \<union> fst ` set (modified ?r)"
    if "include_same \<and> include_modified"
  proof
    show "set (same ?r) \<union> fst ` set (modified ?r) \<subseteq> set (common_keys ?r)" by (rule d)
    show "set (common_keys ?r) \<subseteq> set (same ?r) \<union> fst ` set (modified ?r)"
    proof
      fix k assume "k \<in> set (common_keys ?r)"
      then have k: "k \<in> fst ` set d1" "k \<in> fst ` set d2" unfolding K by blast+
      then obtain v1 v2 where "map_of d1 k = Some v1" "map_of d2 k = Some v2"
        by (meson map_of_eq_None_iff not_Some_eq)
      with k that show "k \<in> set (same ?r) \<union> fst ` set (modified ?r)"
        unfolding S M by (cases "compare_function v1 v2") auto
    qed
  qed
  show ?thesis unfolding Let_def using a b c d e by blast
qed

theorem compare_dict_invariant_witness:
  "(let d1 = [(KStr ''a'', VInt 1), (KStr ''b'', VInt 2), (KStr ''c'', VInt 3)];
        d2 = [(KStr ''a'', VInt 1 :: unit pyval), (KStr ''b'', VInt 5), (KStr ''d'', VInt 4)];
        r = compare_dict d1 d2 False True True py_eq
    in set (left_new r) \<union> set (common_keys r) = fst ` set d1
       \<and> set (right_new r) \<union> set (common_keys r) = fst ` set d2
       \<and> set (left_new r) \<inter> set (right_new r) = {}
       \<and> set (same r) \<union> fst ` set (modified r) \<subseteq> set (common_keys r)
       \<and> set (common_keys r) = set (same r) \<union> fst ` set (modified r))"
proof -
  have flags: "True \<and> True" by simp
  note T = compare_dict_invariant
          [of "[(KStr ''a'', VInt 1), (KStr ''b'', VInt 2), (KStr ''c'', VInt 3)]"
              "[(KStr ''a'', VInt 1 :: unit pyval), (KStr ''b'', VInt 5), (KStr ''d'', VInt 4)]"
              False True True py_eq, unfolded Let_def]
  note T1 = T [THEN conjunct1]
  note T2 = T [THEN conjunct2, THEN conjunct1]
  note T3 = T [THEN conjunct2, THEN conjunct2, THEN conjunct1]
  note T4 = T [THEN conjunct2, THEN conjunct2, THEN conjunct2, THEN conjunct1]
  note T5 = T [THEN conjunct2, THEN conjunct2, THEN conjunct2, THEN conjunct2, THEN mp, OF flags]
  show ?thesis
    unfolding Let_def by (intro conjI) (rule T1, rule T2, rule T3, rule T4, rule T5)
qed

section \<open>Properties of the occupancy model\<close>

lemma not_used_loop_eq:
  "not_used_loop blocks i result =
     result @ map (gap_between blocks)
                (filter (\<lambda>j. end_offset (blocks ! j) < start_offset (blocks ! Suc j))
                        [i..<length blocks - 1])"
proof (induction blocks i result rule: not_used_loop.induct)
  case (1 blocks i result)
  show ?case
  proof (cases "Suc i < length blocks")
    case False
    then show ?thesis by (simp add: not_used_loop.simps [of blocks i result])
  next
    case True
    then have upt: "[i..<length blocks - Suc 0] = i # [Suc i..<length blocks - Suc 0]"
      by (simp add: upt_conv_Cons)
    show ?thesis
    proof (cases "end_offset (blocks ! i) \<ge> start_offset (blocks ! Suc i)")
      case True
      with \<open>Suc i < length blocks\<close> 1 show ?thesis
        by (simp add: not_used_loop.simps [of blocks i result] upt)
    next
      case False
      with \<open>Suc i < length blocks\<close> 1 show ?thesis
        by (simp add: not_used_loop.simps [of blocks i result] upt gap_between_def Let_def)
    qed
  qed
qed

lemma overlapped_loop_eq:
  "overlapped_loop blocks i result =
     result @ map (\<lambda>j. (blocks ! j, blocks ! Suc j))
                (filter (\<lambda>j. last_offset (blocks ! j) > start_offset (blocks ! Suc j))
                        [i..<length blocks - 1])"
proof (induction blocks i result rule: overlapped_loop.induct)
  case (1 blocks i result)
  show ?case
  proof (cases "Suc i < length blocks")
    case False
    then show ?thesis by (simp add: overlapped_loop.simps [of blocks i result])
  next
    case True
    then have upt: "[i..<length blocks - Suc 0] = i # [Suc i..<length blocks - Suc 0]"
      by (simp add: upt_conv_Cons)
    show ?thesis
    proof (cases "last_offset (blocks ! i) > start_offset (blocks ! Suc i)")
      case True
      with \<open>Suc i < length blocks\<close> 1 show ?thesis
        by (simp add: overlapped_loop.simps [of blocks i result] upt)
    next
      case False
      with \<open>Suc i < length blocks\<close> 1 show ?thesis
        by (simp add: overlapped_loop.simps [of blocks i result] upt)
    qed
  qed
qed

lemma check_overlapped_blocks_iff:
  "(a, b) \<in> set (check_overlapped_blocks blocks) \<longleftrightarrow>
     (\<exists>i. Suc i < length blocks \<and> a = blocks ! i \<and> b = blocks ! Suc i
          \<and> last_offset a > start_offset b)"
proof -
  have "Suc i < length blocks \<longleftrightarrow> i < length blocks - Suc 0" for i by auto
  then show ?thesis
    by (auto simp: check_overlapped_blocks_def overlapped_loop_eq)
qed

lemma not_used_blocks_of_nonempty:
  assumes "blocks \<noteq> []"
  shows "not_used_blocks_of blocks fsize =
           Inr (sort_key start_offset
                  (map (gap_between blocks)
                     (filter (\<lambda>j. end_offset (blocks ! j) < start_offset (blocks ! Suc j))
                             [0..<length blocks - 1])
                   @ (if end_offset (last blocks) < fsize then [trailing_gap blocks fsize] else [])))"
proof -
  have loop: "(if length blocks > 1 then not_used_loop blocks 0 [] else []) =
        map (gap_between blocks)
          (filter (\<lambda>j. end_offset (blocks ! j) < start_offset (blocks ! Suc j))
                  [0..<length blocks - 1])"
    by (simp add: not_used_loop_eq)
  obtain b bs where "blocks = b # bs" using assms by (cases blocks) auto
  then show ?thesis
    unfolding not_used_blocks_of_def Let_def loop
    by (simp add: trailing_gap_def)
qed

lemma not_used_blocks_of_empty: "not_used_blocks_of [] fsize = Inl IndexError"
  by (simp add: not_used_blocks_of_def)

lemma used_fold_eq:
  "fold (\<lambda>section result.
           if sh_size section = 0 \<or> is_null section
              \<or> sh_type section \<in> {''SHT_NOBITS'', ''SHT_NULL''}
           then result
           else result @ [mk_Block (sh_offset section) (sh_size section) SECTION
                            (SectionObject section)])
        ss result
   = result @ map (\<lambda>section. mk_Block (sh_offset section) (sh_size section) SECTION
                                 (SectionObject section))
                (filter (\<lambda>section. \<not> (sh_size section = 0 \<or> is_null section
                            \<or> sh_type section \<in> {''SHT_NOBITS'', ''SHT_NULL''})) ss)"
  by (induction ss arbitrary: result) simp_all

lemma get_used_blocks_eq:
  "get_used_blocks self =
     (sort_key start_offset (table_blocks self @ section_blocks (sections self)),
      self\<lparr>used_blocks := Some (sort_key start_offset
                                   (table_blocks self @ section_blocks (sections self)))\<rparr>)"
  unfolding get_used_blocks_def Let_def used_fold_eq table_blocks_def section_blocks_def
  by simp

lemma used_tables_sorted:
  assumes "0 \<le> H" "0 \<le> P"
  shows "sort_key start_offset
           [mk_Block 0 H ELF_HEADER ob, mk_Block H P PROGRAM_HEADER_TABLE NoObject,
            mk_Block (H + P) S SECTION_HEADER_TABLE NoObject]
         = [mk_Block 0 H ELF_HEADER ob, mk_Block H P PROGRAM_HEADER_TABLE NoObject,
            mk_Block (H + P) S SECTION_HEADER_TABLE NoObject]"
  using assms by (intro sort_key_id_if_sorted) (simp add: mk_Block_def)

lemma tables_only_gaps:
  fixes H P S F :: int and ob :: block_object
  assumes "0 \<le> H" "0 \<le> P" "0 \<le> S" "H + P + S < F"
  defines "used \<equiv> [mk_Block 0 H ELF_HEADER ob, mk_Block H P PROGRAM_HEADER_TABLE NoObject,
                     mk_Block (H + P) S SECTION_HEADER_TABLE NoObject]"
  shows "not_used_blocks_of used F = Inr [mk_Block (H + P + S) (F - (H + P + S)) NOT_USED NoObject]"
    and "check_overlapped_blocks used = []"
proof -
  have upt: "[0..<Suc (Suc 0)] = [0, Suc 0]" by (simp add: upt_rec)
  have ne: "used \<noteq> []" by (simp add: used_def)
  show "not_used_blocks_of used F = Inr [mk_Block (H + P + S) (F - (H + P + S)) NOT_USED NoObject]"
    unfolding not_used_blocks_of_nonempty [OF ne]
    using assms(1-4)
    by (simp add: used_def upt end_offset_def mk_Block_def trailing_gap_def)
  show "check_overlapped_blocks used = []"
    using assms(1-4)
    by (simp add: check_overlapped_blocks_def overlapped_loop_eq used_def upt last_offset_def mk_Block_def)
qed

text \<open>
  C2. The claim: a consecutive pair is flagged exactly when
  \<open>start_offset cur + size cur > start_offset next\<close>. The loop compares \<open>last_offset cur\<close>,
  which is one less, with \<open>start_offset next\<close>, so two blocks that share exactly one byte
  are not flagged: \<open>[0,10)\<close> and \<open>[9,19)\<close> intersect in byte 9 and the result is empty.
\<close>

theorem check_overlapped_blocks_one_byte:
  "check_overlapped_blocks [mk_Block 0 10 ELF_HEADER NoObject, mk_Block 9 10 SECTION NoObject] = []
   \<and> end_offset (mk_Block 0 10 ELF_HEADER NoObject) > start_offset (mk_Block 9 10 SECTION NoObject)"
  by (simp add: check_overlapped_blocks_def overlapped_loop_eq last_offset_def end_offset_def mk_Block_def)

text \<open>
  C3. For a non-empty list of used blocks the gap computation returns a list whose
  elements are exactly the gaps \<open>[end_offset cur, start_offset next)\<close> of the adjacent
  pairs with \<open>end_offset cur < start_offset next\<close>, and the trailing gap
  \<open>[end_offset last, file size)\<close> when the last block ends before the end of the file.
  For a file none of whose sections yields a used block (each is empty, null or without
  file bytes), so that its only used blocks are the header (size \<open>H\<close> at 0), the
  program-header table (size \<open>P\<close> at \<open>H\<close>) and the section-header table (size \<open>S\<close> at
  \<open>H + P\<close>), and whose size is \<open>F > H + P + S\<close>, the one gap is \<open>[H + P + S, F)\<close> and no
  overlap is detected.
\<close>

theorem gap_computation:
  "(blocks \<noteq> [] \<longrightarrow>
      (\<exists>gaps. not_used_blocks_of blocks fsize = Inr gaps
         \<and> set gaps =
             {gap_between blocks i | i.
                Suc i < length blocks \<and> end_offset (blocks ! i) < start_offset (blocks ! Suc i)}
             \<union> (if end_offset (last blocks) < fsize then {trailing_gap blocks fsize} else {})))
   \<and> (section_blocks (sections self) = []
        \<and> e_ehsize (elffile self) = H \<and> e_phoff (elffile self) = H
        \<and> e_phentsize (elffile self) * e_phnum (elffile self) = P
        \<and> e_shoff (elffile self) = H + P
        \<and> e_shentsize (elffile self) * e_shnum (elffile self) = S
        \<and> file_size self = F \<and> 0 \<le> H \<and> 0 \<le> P \<and> 0 \<le> S \<and> H + P + S < F
      \<longrightarrow> not_used_blocks_of (fst (get_used_blocks self)) F
            = Inr [mk_Block (H + P + S) (F - (H + P + S)) NOT_USED NoObject]
          \<and> check_overlapped_blocks (fst (get_used_blocks self)) = [])"
proof (intro conjI impI)
  assume ne: "blocks \<noteq> []"
  have idx: "Suc i < length blocks \<longleftrightarrow> i < length blocks - Suc 0" for i by auto
  show "\<exists>gaps. not_used_blocks_of blocks fsize = Inr gaps
         \<and> set gaps =
             {gap_between blocks i | i.
                Suc i < length blocks \<and> end_offset (blocks ! i) < start_offset (blocks ! Suc i)}
             \<union> (if end_offset (last blocks) < fsize then {trailing_gap blocks fsize} else {})"
    unfolding not_used_blocks_of_nonempty [OF ne] by (auto simp: idx)
next
  assume a: "section_blocks (sections self) = []
        \<and> e_ehsize (elffile self) = H \<and> e_phoff (elffile self) = H
        \<and> e_phentsize (elffile self) * e_phnum (elffile self) = P
        \<and> e_shoff (elffile self) = H + P
        \<and> e_shentsize (elffile self) * e_shnum (elffile self) = S
        \<and> file_size self = F \<and> 0 \<le> H \<and> 0 \<le> P \<and> 0 \<le> S \<and> H + P + S < F"
  from a have nosec: "section_blocks (sections self) = []" by simp
  from a have flds: "e_ehsize (elffile self) = H" "e_phoff (elffile self) = H"
      "e_phentsize (elffile self) * e_phnum (elffile self) = P"
      "e_shoff (elffile self) = H + P"
      "e_shentsize (elffile self) * e_shnum (elffile self) = S"
    by simp_all
  from a have nonneg: "0 \<le> H" "0 \<le> P" by simp_all
  have used: "fst (get_used_blocks self) =
      [mk_Block 0 H ELF_HEADER (HeaderObject (header_raw self)),
       mk_Block H P PROGRAM_HEADER_TABLE NoObject,
       mk_Block (H + P) S SECTION_HEADER_TABLE NoObject]"
    unfolding get_used_blocks_eq fst_conv nosec table_blocks_def append_Nil2 flds
    by (rule used_tables_sorted [OF nonneg])
  from a show "not_used_blocks_of (fst (get_used_blocks self)) F
            = Inr [mk_Block (H + P + S) (F - (H + P + S)) NOT_USED NoObject]"
    unfolding used by (intro tables_only_gaps) simp_all
  from a show "check_overlapped_blocks (fst (get_used_blocks self)) = []"
    unfolding used by (intro tables_only_gaps [where F = F]) simp_all
qed

theorem gap_computation_witness:
  "(let null_section = (example_section [] 0 [])\<lparr>is_null := True, sh_type := ''SHT_NULL''\<rparr>;
        bss = (example_section ''.bss'' 18 [])\<lparr>sh_size := 16, sh_type := ''SHT_NOBITS''\<rparr>;
        self = unread (example_file 4 4 6 10 8 [null_section, bss] (replicate 20 0))
    in (\<exists>gaps. not_used_blocks_of
                  [mk_Block 0 10 ELF_HEADER NoObject, mk_Block 20 5 SECTION NoObject] 40
                = Inr gaps
              \<and> set gaps = {mk_Block 10 10 NOT_USED NoObject, mk_Block 25 15 NOT_USED NoObject})
       \<and> fst (get_used_blocks self) =
           [mk_Block 0 4 ELF_HEADER (HeaderObject []), mk_Block 4 6 PROGRAM_HEADER_TABLE NoObject,
            mk_Block 10 8 SECTION_HEADER_TABLE NoObject]
       \<and> not_used_blocks_of (fst (get_used_blocks self)) 20 = Inr [mk_Block 18 2 NOT_USED NoObject]
       \<and> check_overlapped_blocks (fst (get_used_blocks self)) = [])"
proof -
  let ?blocks = "[mk_Block 0 10 ELF_HEADER NoObject, mk_Block 20 5 SECTION NoObject]"
  let ?null = "(example_section [] 0 [])\<lparr>is_null := True, sh_type := ''SHT_NULL''\<rparr>"
  let ?bss = "(example_section ''.bss'' 18 [])\<lparr>sh_size := 16, sh_type := ''SHT_NOBITS''\<rparr>"
  let ?self = "unread (example_file 4 4 6 10 8 [?null, ?bss] (replicate 20 0))"
  note T = gap_computation [of ?blocks 40 ?self 4 6 8 20]
  have set_eq: "{gap_between ?blocks i | i.
                Suc i < length ?blocks \<and> end_offset (?blocks ! i) < start_offset (?blocks ! Suc i)}
        = {mk_Block 10 10 NOT_USED NoObject}"
    by (auto simp: gap_between_def end_offset_def mk_Block_def)
  have 1: "\<exists>gaps. not_used_blocks_of ?blocks 40 = Inr gaps
         \<and> set gaps = {mk_Block 10 10 NOT_USED NoObject, mk_Block 25 15 NOT_USED NoObject}"
    using T [THEN conjunct1] unfolding set_eq
    by (simp add: trailing_gap_def end_offset_def mk_Block_def insert_commute)
  have skipped: "section_blocks (sections ?self) = []"
    by (simp add: section_blocks_def unread_def example_file_def example_section_def)
  have used: "fst (get_used_blocks ?self) =
           [mk_Block 0 4 ELF_HEADER (HeaderObject []), mk_Block 4 6 PROGRAM_HEADER_TABLE NoObject,
            mk_Block 10 8 SECTION_HEADER_TABLE NoObject]"
    unfolding get_used_blocks_eq fst_conv skipped
    by (simp add: table_blocks_def unread_def example_file_def mk_Block_def)
  have 2: "not_used_blocks_of (fst (get_used_blocks ?self)) 20 = Inr [mk_Block 18 2 NOT_USED NoObject]
     \<and> check_overlapped_blocks (fst (get_used_blocks ?self)) = []"
    using T [THEN conjunct2] skipped
    by (simp add: unread_def example_file_def BytesIO_def file_size_def)
  from 1 used 2 show ?thesis unfolding Let_def by (intro conjI) simp_all
qed

text \<open>
  On an empty list of used blocks the gap computation raises \<^verbatim>\<open>IndexError\<close>; it does
  not return the whole file as one gap.
\<close>

theorem empty_used_blocks_counterexample:
  "not_used_blocks_of [] 100 = Inl IndexError
   \<and> not_used_blocks_of [] 100 \<noteq> Inr [mk_Block 0 100 NOT_USED NoObject]"
  by (simp add: not_used_blocks_of_def)

text \<open>
  C8 (as amended). Invoked with an empty used-block list, the gap computation raises the
  \<^verbatim>\<open>IndexError\<close> of \<^verbatim>\<open>used_blocks[-1]\<close>, whatever the file size: the case is not
  guarded, and the method \<^verbatim>\<open>_get_not_used_blocks\<close> passes the error on.
\<close>

theorem empty_used_blocks_IndexError:
  "not_used_blocks_of [] fsize = Inl IndexError
   \<and> (used_blocks self = Some [] \<longrightarrow> get_not_used_blocks self = Inl IndexError)"
  by (simp add: not_used_blocks_of_def get_not_used_blocks_def)

theorem empty_used_blocks_IndexError_witness:
  "get_not_used_blocks ((unread (example_file 4 4 6 10 8 [] (replicate 20 0)))\<lparr>used_blocks := Some []\<rparr>)
     = Inl IndexError"
  using empty_used_blocks_IndexError
          [of 20 "(unread (example_file 4 4 6 10 8 [] (replicate 20 0)))\<lparr>used_blocks := Some []\<rparr>"]
  by simp

lemma sort_key_least_first:
  assumes "\<forall>y \<in> set xs. f x \<le> f y"
  shows "sort_key f (x # xs) = x # sort_key f xs"
proof -
  have "sort_key f (x # xs) = insort_key f x (sort_key f xs)" by simp
  also have "\<dots> = x # sort_key f xs"
    using assms by (intro insort_is_Cons) simp
  finally show ?thesis .
qed

lemma used_blocks_header_first:
  assumes "0 \<le> e_phoff (elffile self)" "0 \<le> e_shoff (elffile self)"
    and "\<forall>s \<in> set (sections self). 0 \<le> sh_offset s"
  shows "fst (get_used_blocks self) =
           mk_Block 0 (e_ehsize (elffile self)) ELF_HEADER (HeaderObject (header_raw self))
           # sort_key start_offset (tl (table_blocks self) @ section_blocks (sections self))"
proof -
  let ?hdr = "mk_Block 0 (e_ehsize (elffile self)) ELF_HEADER (HeaderObject (header_raw self))"
  let ?rest = "tl (table_blocks self) @ section_blocks (sections self)"
  have all: "table_blocks self @ section_blocks (sections self) = ?hdr # ?rest"
    by (simp add: table_blocks_def)
  have least: "\<forall>y \<in> set ?rest. start_offset ?hdr \<le> start_offset y"
    using assms by (auto simp: mk_Block_def section_blocks_def table_blocks_def)
  show ?thesis
    unfolding get_used_blocks_eq fst_conv all by (rule sort_key_least_first [OF least])
qed

lemma get_not_used_blocks_after_used:
  assumes "not_used_blocks_of (fst (get_used_blocks self)) (file_size self) = Inr gaps"
  shows "get_not_used_blocks (snd (get_used_blocks self))
           = Inr (gaps, self\<lparr>used_blocks := Some (fst (get_used_blocks self)),
                              not_used_blocks := Some gaps\<rparr>)"
  using assms
  by (simp add: get_not_used_blocks_def Let_def get_used_blocks_eq file_size_def)

text \<open>
  C10. For a parsed file whose header flattens (it has its \<^verbatim>\<open>e_ident\<close> mapping) and whose
  table and section offsets are not negative, as the parser's unsigned fields are,
  \<^verbatim>\<open>read_metadata\<close> succeeds; the used-block list it stores holds at least three blocks,
  among them the ELF header block, the program-header table block and the
  section-header table block; after sorting its first block is the ELF header block, at
  offset 0; and the gap computation ran on that non-empty list and returned a result
  (no \<^verbatim>\<open>IndexError\<close>), with nothing before the first used block left to report.
\<close>

theorem used_blocks_never_empty:
  assumes "flatten_header (elf_header elf) = Inr raw"
    and "0 \<le> e_phoff elf" "0 \<le> e_shoff elf"
    and "\<forall>s \<in> set (iter_sections elf). 0 \<le> sh_offset s"
  shows "\<exists>self used gaps.
           read_metadata elf = Inr self
           \<and> used_blocks self = Some used \<and> not_used_blocks self = Some gaps
           \<and> 3 \<le> length used
           \<and> {mk_Block 0 (e_ehsize elf) ELF_HEADER (HeaderObject raw),
               mk_Block (e_phoff elf) (e_phentsize elf * e_phnum elf) PROGRAM_HEADER_TABLE NoObject,
               mk_Block (e_shoff elf) (e_shentsize elf * e_shnum elf) SECTION_HEADER_TABLE NoObject}
              \<subseteq> set used
           \<and> used ! 0 = mk_Block 0 (e_ehsize elf) ELF_HEADER (HeaderObject raw)
           \<and> start_offset (used ! 0) = 0
           \<and> not_used_blocks_of used (file_size self) = Inr gaps"
proof -
  define self0 where "self0 = \<lparr>elffile = elf, header_raw = raw, sections = iter_sections elf,
                       segments = iter_segments elf, used_blocks = None,
                       not_used_blocks = None\<rparr>"
  let ?used = "fst (get_used_blocks self0)"
  have first: "?used = mk_Block 0 (e_ehsize elf) ELF_HEADER (HeaderObject raw)
        # sort_key start_offset (tl (table_blocks self0) @ section_blocks (sections self0))"
    using used_blocks_header_first [of self0] assms(2-4) by (simp add: self0_def)
  then have ne: "?used \<noteq> []" by simp
  obtain gaps where gaps: "not_used_blocks_of ?used (file_size self0) = Inr gaps"
    using not_used_blocks_of_nonempty [OF ne] by blast
  define self1 where "self1 = self0\<lparr>used_blocks := Some ?used, not_used_blocks := Some gaps\<rparr>"
  have rm: "read_metadata elf = Inr self1"
    using get_not_used_blocks_after_used [OF gaps] assms(1)
    by (simp add: read_metadata_def Let_def self0_def [symmetric] self1_def)
  have len: "3 \<le> length ?used"
    by (simp add: get_used_blocks_eq table_blocks_def)
  have sub: "set (table_blocks self0) \<subseteq> set ?used"
    by (auto simp: get_used_blocks_eq)
  have tb: "set (table_blocks self0) =
      {mk_Block 0 (e_ehsize elf) ELF_HEADER (HeaderObject raw),
       mk_Block (e_phoff elf) (e_phentsize elf * e_phnum elf) PROGRAM_HEADER_TABLE NoObject,
       mk_Block (e_shoff elf) (e_shentsize elf * e_shnum elf) SECTION_HEADER_TABLE NoObject}"
    by (simp add: table_blocks_def self0_def)
  have fs: "file_size self1 = file_size self0" by (simp add: self1_def file_size_def)
  have hd0: "?used ! 0 = mk_Block 0 (e_ehsize elf) ELF_HEADER (HeaderObject raw)"
    unfolding first by simp
  have "read_metadata elf = Inr self1
           \<and> used_blocks self1 = Some ?used \<and> not_used_blocks self1 = Some gaps
           \<and> 3 \<le> length ?used
           \<and> {mk_Block 0 (e_ehsize elf) ELF_HEADER (HeaderObject raw),
               mk_Block (e_phoff elf) (e_phentsize elf * e_phnum elf) PROGRAM_HEADER_TABLE NoObject,
               mk_Block (e_shoff elf) (e_shentsize elf * e_shnum elf) SECTION_HEADER_TABLE NoObject}
              \<subseteq> set ?used
           \<and> ?used ! 0 = mk_Block 0 (e_ehsize elf) ELF_HEADER (HeaderObject raw)
           \<and> start_offset (?used ! 0) = 0
           \<and> not_used_blocks_of ?used (file_size self1) = Inr gaps"
    using rm len sub gaps hd0 unfolding tb fs by (simp add: self1_def mk_Block_def)
  then show ?thesis by blast
qed

theorem used_blocks_never_empty_witness:
  "\<exists>self used gaps.
      read_metadata (example_file 4 0 0 10 8 [example_section ''.text'' 20 [1, 2]] (replicate 30 0))
        = Inr self
      \<and> used_blocks self = Some used \<and> not_used_blocks self = Some gaps
      \<and> 3 \<le> length used
      \<and> used ! 0 = mk_Block 0 4 ELF_HEADER (HeaderObject [])
      \<and> start_offset (used ! 0) = 0
      \<and> not_used_blocks_of used (file_size self) = Inr gaps"
  using used_blocks_never_empty
          [of "example_file 4 0 0 10 8 [example_section ''.text'' 20 [1, 2]] (replicate 30 0)" "[]"]
  by (simp add: example_file_def example_section_def flatten_header_def) blast

section \<open>Properties of reading a block\<close>

text \<open>
  A block of size 5 at offset 2 of a four-byte \<^verbatim>\<open>io.BytesIO\<close>: the read returns the two
  bytes that are there, and no error.
\<close>

theorem data_short_read_counterexample:
  "data (BytesIO [1, 2, 3, 4]) (mk_Block 2 5 SECTION NoObject) = Inr [3, 4]
   \<and> int (length (content (BytesIO [1, 2, 3, 4])))
       < start_offset (mk_Block 2 5 SECTION NoObject) + size_blk (mk_Block 2 5 SECTION NoObject)"
  by (simp add: data_def seek_def read_def mk_Block_def BytesIO_def)

text \<open>
  C7 (as amended). Reading the data of a block seeks to the block's start offset and
  reads \<open>size\<close> bytes from the originating file's stream. When the offset and the size are
  not negative and the stream accepts both, the read returns the bytes the stream has from
  the offset on, at most \<open>size\<close> of them: exactly \<open>size\<close> bytes when \<open>offset + size\<close> is
  within the stream, and otherwise only the bytes up to its end, with no error, so a
  short read is never reported. The read fails, with the stream's own error, exactly
  when the offset is negative or the stream refuses the offset or the size.
\<close>

theorem data_reads_available_bytes:
  "(0 \<le> start_offset b \<and> 0 \<le> size_blk b
      \<and> accepts_position s (start_offset b) \<and> accepts_size s (size_blk b) \<longrightarrow>
     (\<exists>bytes. data s b = Inr bytes
        \<and> bytes = take (nat (size_blk b)) (drop (nat (start_offset b)) (content s))
        \<and> int (length bytes)
            = min (size_blk b) (max 0 (int (length (content s)) - start_offset b))
        \<and> (start_offset b + size_blk b \<le> int (length (content s))
             \<longrightarrow> int (length bytes) = size_blk b)
        \<and> (int (length (content s)) < start_offset b + size_blk b
             \<longrightarrow> bytes = drop (nat (start_offset b)) (content s))))
   \<and> ((\<exists>e. data s b = Inl e) \<longleftrightarrow>
         start_offset b < 0 \<or> \<not> accepts_position s (start_offset b)
         \<or> \<not> accepts_size s (size_blk b))
   \<and> (\<forall>e. data s b = Inl e \<longrightarrow> e = StreamError)"
  by (auto simp: data_def seek_def read_def)

theorem data_reads_available_bytes_witness:
  "data (BytesIO [1, 2, 3, 4]) (mk_Block 1 2 SECTION NoObject) = Inr [2, 3]
   \<and> data (BytesIO [1, 2, 3, 4]) (mk_Block 3 6 SECTION NoObject) = Inr [4]
   \<and> data (BytesIO [1, 2, 3, 4]) (mk_Block 4 (2 ^ 63) NOT_USED NoObject) = Inl StreamError
   \<and> data (BytesIO [1, 2, 3, 4]) (mk_Block (2 ^ 63) 1 NOT_USED NoObject) = Inl StreamError"
proof -
  let ?s = "BytesIO [1, 2, 3, 4]"
  note T1 = data_reads_available_bytes [of "mk_Block 1 2 SECTION NoObject" ?s]
  note T2 = data_reads_available_bytes [of "mk_Block 3 6 SECTION NoObject" ?s]
  note T3 = data_reads_available_bytes [of "mk_Block 4 (2 ^ 63) NOT_USED NoObject" ?s]
  note T4 = data_reads_available_bytes [of "mk_Block (2 ^ 63) 1 NOT_USED NoObject" ?s]
  have 1: "data ?s (mk_Block 1 2 SECTION NoObject) = Inr [2, 3]"
    using T1 [THEN conjunct1] by (simp add: mk_Block_def BytesIO_def)
  have 2: "data ?s (mk_Block 3 6 SECTION NoObject) = Inr [4]"
    using T2 [THEN conjunct1] by (simp add: mk_Block_def BytesIO_def)
  have "\<exists>e. data ?s (mk_Block 4 (2 ^ 63) NOT_USED NoObject) = Inl e"
    using T3 [THEN conjunct2, THEN conjunct1] by (simp add: mk_Block_def BytesIO_def)
  then have 3: "data ?s (mk_Block 4 (2 ^ 63) NOT_USED NoObject) = Inl StreamError"
    using T3 [THEN conjunct2, THEN conjunct2] by blast
  have "\<exists>e. data ?s (mk_Block (2 ^ 63) 1 NOT_USED NoObject) = Inl e"
    using T4 [THEN conjunct2, THEN conjunct1] by (simp add: mk_Block_def BytesIO_def)
  then have 4: "data ?s (mk_Block (2 ^ 63) 1 NOT_USED NoObject) = Inl StreamError"
    using T4 [THEN conjunct2, THEN conjunct2] by blast
  from 1 2 3 4 show ?thesis by (intro conjI)
qed

section \<open>Properties of the section comparison\<close>

lemma sections_fold_keys:
  fixes d1 d2 :: "(pykey \<times> Section) list"
  defines "step \<equiv> (\<lambda>section_name modified_sections.
                    case (map_of d1 section_name, map_of d2 section_name) of
                      (Some section_1, Some section_2) \<Rightarrow>
                        (let compared_section = compare_section section_1 section_2
                         in if has_changes_section compared_section
                            then AList.update section_name compared_section modified_sections
                            else modified_sections)
                    | _ \<Rightarrow> modified_sections)"
  shows "fst ` set (fold step ks m) =
           fst ` set m \<union> {k \<in> set ks. \<exists>s1 s2. map_of d1 k = Some s1 \<and> map_of d2 k = Some s2
                                    \<and> has_changes_section (compare_section s1 s2)}"
proof (induction ks arbitrary: m)
  case Nil
  show ?case by simp
next
  case (Cons k ks)
  define P where "P \<longleftrightarrow> (\<exists>s1 s2. map_of d1 k = Some s1 \<and> map_of d2 k = Some s2
                                    \<and> has_changes_section (compare_section s1 s2))"
  have "(P \<and> (\<exists>v. step k m = AList.update k v m)) \<or> (\<not> P \<and> step k m = m)"
    unfolding P_def by (auto simp: step_def Let_def split: option.splits)
  then have one: "fst ` set (step k m) = fst ` set m \<union> {x. x = k \<and> P}"
    by (elim disjE conjE exE; simp)
  have eq: "fold step (k # ks) m = fold step ks (step k m)" by simp
  show ?case
    unfolding eq Cons.IH [of "step k m"] one P_def by auto
qed

lemma fst_image_objects [simp]:
  "fst ` (\<lambda>(k, s). (k, VObject (f s))) ` D = fst ` D"
  by (force simp: image_iff)

lemma has_changes_section_iff:
  "has_changes_section (compare_section section_1 section_2) \<longleftrightarrow>
     (let compared_headers =
            compare_dict (header section_1) (header section_2) False True False py_eq
      in left_new compared_headers \<noteq> [] \<or> right_new compared_headers \<noteq> []
         \<or> AList.delete (KStr ''sh_name'') (modified compared_headers) \<noteq> [])
     \<or> length (section_data section_1) \<noteq> length (section_data section_2)
     \<or> locate_array_diff (section_data section_1) (section_data section_2) \<noteq> - 1"
  by (simp add: has_changes_section_def compare_section_def has_changes_def pop_modified_def Let_def)

lemma header_diff_nonempty_iff:
  fixes h1 h2 :: plain_dict
  shows "(let compared_headers = compare_dict h1 h2 False True False py_eq
          in left_new compared_headers \<noteq> [] \<or> right_new compared_headers \<noteq> []
             \<or> AList.delete (KStr ''sh_name'') (modified compared_headers) \<noteq> [])
         \<longleftrightarrow>
         (fst ` set h1 \<noteq> fst ` set h2
          \<or> (\<exists>k v1 v2. k \<noteq> KStr ''sh_name'' \<and> map_of h1 k = Some v1 \<and> map_of h2 k = Some v2
                        \<and> \<not> py_eq v1 v2))"
proof -
  let ?d = "compare_dict h1 h2 False True False py_eq"
  let ?sh = "KStr ''sh_name''"
  have l: "left_new ?d \<noteq> [] \<longleftrightarrow> fst ` set h1 - fst ` set h2 \<noteq> {}"
    using compare_dict_keys(1) [of h1 h2 False True False py_eq]
    by (metis set_empty)
  have r: "right_new ?d \<noteq> [] \<longleftrightarrow> fst ` set h2 - fst ` set h1 \<noteq> {}"
    using compare_dict_keys(2) [of h1 h2 False True False py_eq]
    by (metis set_empty)
  have mk: "fst ` set (modified ?d) =
      {k \<in> fst ` set h1 \<inter> fst ` set h2.
         \<exists>v1 v2. map_of h1 k = Some v1 \<and> map_of h2 k = Some v2 \<and> \<not> py_eq v1 v2}"
    using compare_dict_same_modified [of h1 h2 False True False py_eq, THEN conjunct2] by simp
  have dom: "k \<in> fst ` set h" if "map_of h k = Some v" for h :: plain_dict and k v
    using map_of_SomeD [OF that] by force
  have del: "AList.delete ?sh (modified ?d) \<noteq> [] \<longleftrightarrow> fst ` set (modified ?d) - {?sh} \<noteq> {}"
    using fst_set_delete [of ?sh "modified ?d"] by (metis image_is_empty set_empty)
  have m: "AList.delete ?sh (modified ?d) \<noteq> [] \<longleftrightarrow>
        (\<exists>k v1 v2. k \<noteq> ?sh \<and> map_of h1 k = Some v1 \<and> map_of h2 k = Some v2 \<and> \<not> py_eq v1 v2)"
    (is "?L \<longleftrightarrow> ?R")
  proof
    assume ?L
    then obtain k where k: "k \<in> fst ` set (modified ?d)" "k \<noteq> ?sh"
      unfolding del by auto
    from k(1) obtain v1 v2 where "map_of h1 k = Some v1" "map_of h2 k = Some v2" "\<not> py_eq v1 v2"
      unfolding mk by auto
    with k(2) show ?R by auto
  next
    assume ?R
    then obtain k v1 v2 where k: "k \<noteq> ?sh" "map_of h1 k = Some v1" "map_of h2 k = Some v2"
        "\<not> py_eq v1 v2"
      by auto
    then have "k \<in> fst ` set (modified ?d)"
      unfolding mk using dom [OF k(2)] dom [OF k(3)] by auto
    with k(1) show ?L unfolding del by auto
  qed
  have sets: "fst ` set h1 \<noteq> fst ` set h2 \<longleftrightarrow>
      fst ` set h1 - fst ` set h2 \<noteq> {} \<or> fst ` set h2 - fst ` set h1 \<noteq> {}"
    by auto
  show ?thesis unfolding Let_def l r m sets by (rule disj_assoc [symmetric])
qed

lemma modified_sections_keys:
  "fst ` set (modified_sections (compare_sections self other)) =
     {k \<in> fst ` set (sections_dict (sections self)) \<inter> fst ` set (sections_dict (sections other)).
        \<exists>s1 s2. map_of (sections_dict (sections self)) k = Some s1
              \<and> map_of (sections_dict (sections other)) k = Some s2
              \<and> has_changes_section (compare_section s1 s2)}"
  using sections_fold_keys [of "sections_dict (sections self)" "sections_dict (sections other)"
          "common_keys (compare_dict
                          (map (\<lambda>(k, s). (k, VObject (map_of (header s))))
                             (sections_dict (sections self)))
                          (map (\<lambda>(k, s). (k, VObject (map_of (header s))))
                             (sections_dict (sections other)))
                          True False True py_eq)" "[]"]
  by (simp add: compare_sections_def Let_def compare_dict_keys Int_def)

text \<open>
  C5. In the section comparison step, a section name common to both files (each file's
  name dictionary has a section under it) is a key of the \<^verbatim>\<open>modified\<close> map of the result
  if and only if the header diff, computed with the unchanged keys excluded and with
  \<^verbatim>\<open>sh_name\<close> removed from its changes afterwards, is not empty (it has a key new on the
  left, a key new on the right or a change left), or the payload lengths differ, or the
  index returned by \<^verbatim>\<open>locate_array_diff\<close> on the payloads is not \<open>-1\<close>. The header diff
  is not empty exactly when the two headers differ in their keys or in the value of a key
  other than \<^verbatim>\<open>sh_name\<close>.
\<close>

theorem section_modified_iff:
  "map_of (sections_dict (sections self)) section_name = Some section_1
   \<and> map_of (sections_dict (sections other)) section_name = Some section_2
   \<longrightarrow>
     (section_name \<in> fst ` set (modified_sections (compare_sections self other)) \<longleftrightarrow>
        (let compared_headers =
               compare_dict (header section_1) (header section_2) False True False py_eq
         in left_new compared_headers \<noteq> [] \<or> right_new compared_headers \<noteq> []
            \<or> AList.delete (KStr ''sh_name'') (modified compared_headers) \<noteq> [])
        \<or> length (section_data section_1) \<noteq> length (section_data section_2)
        \<or> locate_array_diff (section_data section_1) (section_data section_2) \<noteq> - 1)
     \<and> ((let compared_headers =
               compare_dict (header section_1) (header section_2) False True False py_eq
          in left_new compared_headers \<noteq> [] \<or> right_new compared_headers \<noteq> []
             \<or> AList.delete (KStr ''sh_name'') (modified compared_headers) \<noteq> [])
         \<longleftrightarrow>
         (fst ` set (header section_1) \<noteq> fst ` set (header section_2)
          \<or> (\<exists>k v1 v2. k \<noteq> KStr ''sh_name'' \<and> map_of (header section_1) k = Some v1
                        \<and> map_of (header section_2) k = Some v2 \<and> \<not> py_eq v1 v2)))"
proof (intro impI conjI)
  assume a: "map_of (sections_dict (sections self)) section_name = Some section_1
   \<and> map_of (sections_dict (sections other)) section_name = Some section_2"
  then have "section_name \<in> fst ` set (sections_dict (sections self))"
    "section_name \<in> fst ` set (sections_dict (sections other))"
    by (auto dest: map_of_SomeD intro: rev_image_eqI)
  with a show "section_name \<in> fst ` set (modified_sections (compare_sections self other)) \<longleftrightarrow>
        (let compared_headers =
               compare_dict (header section_1) (header section_2) False True False py_eq
         in left_new compared_headers \<noteq> [] \<or> right_new compared_headers \<noteq> []
            \<or> AList.delete (KStr ''sh_name'') (modified compared_headers) \<noteq> [])
        \<or> length (section_data section_1) \<noteq> length (section_data section_2)
        \<or> locate_array_diff (section_data section_1) (section_data section_2) \<noteq> - 1"
    unfolding modified_sections_keys by (simp add: has_changes_section_iff)
next
  show "(let compared_headers =
               compare_dict (header section_1) (header section_2) False True False py_eq
          in left_new compared_headers \<noteq> [] \<or> right_new compared_headers \<noteq> []
             \<or> AList.delete (KStr ''sh_name'') (modified compared_headers) \<noteq> [])
         \<longleftrightarrow>
         (fst ` set (header section_1) \<noteq> fst ` set (header section_2)
          \<or> (\<exists>k v1 v2. k \<noteq> KStr ''sh_name'' \<and> map_of (header section_1) k = Some v1
                        \<and> map_of (header section_2) k = Some v2 \<and> \<not> py_eq v1 v2))"
    by (rule header_diff_nonempty_iff)
qed


text \<open>
  Four sections common to two files: \<^verbatim>\<open>.text\<close> differs in \<^verbatim>\<open>sh_name\<close> only, \<^verbatim>\<open>.rodata\<close>
  in its header offset only, \<^verbatim>\<open>.data\<close> in the length of its bytes, \<^verbatim>\<open>.init\<close> in one
  byte. All but \<^verbatim>\<open>.text\<close> are modified.
\<close>

theorem section_modified_iff_witness:
  "(let text_1 = example_section ''.text'' 20 [1, 2];
        text_2 = (example_section ''.text'' 20 [1, 2])
                   \<lparr>header := [(KStr ''sh_name'', VInt 7), (KStr ''sh_offset'', VInt 20),
                               (KStr ''sh_size'', VInt 2)]\<rparr>;
        left = unread (example_file 4 4 0 4 0
                 [text_1, example_section ''.rodata'' 40 [7], example_section ''.data'' 30 [3, 4, 5],
                  example_section ''.init'' 50 [8, 9]] []);
        right = unread (example_file 4 4 0 4 0
                 [text_2, example_section ''.rodata'' 48 [7], example_section ''.data'' 30 [3, 4],
                  example_section ''.init'' 50 [8, 6]] [])
    in KStr ''.text'' \<notin> fst ` set (modified_sections (compare_sections left right))
       \<and> KStr ''.rodata'' \<in> fst ` set (modified_sections (compare_sections left right))
       \<and> KStr ''.data'' \<in> fst ` set (modified_sections (compare_sections left right))
       \<and> KStr ''.init'' \<in> fst ` set (modified_sections (compare_sections left right)))"
proof -
  let ?h2 = "[(KStr ''sh_name'', VInt 7), (KStr ''sh_offset'', VInt 20), (KStr ''sh_size'', VInt 2)]
               :: plain_dict"
  let ?text_1 = "example_section ''.text'' 20 [1, 2]"
  let ?text_2 = "(example_section ''.text'' 20 [1, 2])\<lparr>header := ?h2\<rparr>"
  let ?ro_1 = "example_section ''.rodata'' 40 [7]"
  let ?ro_2 = "example_section ''.rodata'' 48 [7]"
  let ?data_1 = "example_section ''.data'' 30 [3, 4, 5]"
  let ?data_2 = "example_section ''.data'' 30 [3, 4]"
  let ?init_1 = "example_section ''.init'' 50 [8, 9]"
  let ?init_2 = "example_section ''.init'' 50 [8, 6]"
  let ?left = "unread (example_file 4 4 0 4 0 [?text_1, ?ro_1, ?data_1, ?init_1] [])"
  let ?right = "unread (example_file 4 4 0 4 0 [?text_2, ?ro_2, ?data_2, ?init_2] [])"
  have look: "map_of (sections_dict (sections ?left)) (KStr ''.text'') = Some ?text_1"
      "map_of (sections_dict (sections ?right)) (KStr ''.text'') = Some ?text_2"
      "map_of (sections_dict (sections ?left)) (KStr ''.rodata'') = Some ?ro_1"
      "map_of (sections_dict (sections ?right)) (KStr ''.rodata'') = Some ?ro_2"
      "map_of (sections_dict (sections ?left)) (KStr ''.data'') = Some ?data_1"
      "map_of (sections_dict (sections ?right)) (KStr ''.data'') = Some ?data_2"
      "map_of (sections_dict (sections ?left)) (KStr ''.init'') = Some ?init_1"
      "map_of (sections_dict (sections ?right)) (KStr ''.init'') = Some ?init_2"
    by (simp_all add: sections_dict_def unread_def example_file_def example_section_def)
  note T_text = section_modified_iff [of ?left "KStr ''.text''" ?text_1 ?right ?text_2]
  note T_ro = section_modified_iff [of ?left "KStr ''.rodata''" ?ro_1 ?right ?ro_2]
  note T_data = section_modified_iff [of ?left "KStr ''.data''" ?data_1 ?right ?data_2]
  note T_init = section_modified_iff [of ?left "KStr ''.init''" ?init_1 ?right ?init_2]
  have same_keys: "fst ` set (header ?text_1) = fst ` set (header ?text_2)"
    by (simp add: example_section_def)
  have same_values: "\<not> (\<exists>k v1 v2. k \<noteq> KStr ''sh_name'' \<and> map_of (header ?text_1) k = Some v1
                        \<and> map_of (header ?text_2) k = Some v2 \<and> \<not> py_eq v1 v2)"
    by (auto simp: example_section_def split: if_splits)
  have text_bytes: "locate_array_diff (section_data ?text_1) (section_data ?text_2) = - 1"
    by (simp add: example_section_def locate_array_diff_prefix)
  have text_len: "length (section_data ?text_1) = length (section_data ?text_2)"
    by (simp add: example_section_def)
  have 1: "KStr ''.text'' \<notin> fst ` set (modified_sections (compare_sections ?left ?right))"
    using T_text look(1,2) same_keys same_values text_bytes text_len by blast
  have ro_values: "\<exists>k v1 v2. k \<noteq> KStr ''sh_name'' \<and> map_of (header ?ro_1) k = Some v1
                        \<and> map_of (header ?ro_2) k = Some v2 \<and> \<not> py_eq v1 v2"
    by (rule exI [of _ "KStr ''sh_offset''"]) (simp add: example_section_def)
  have ro_same_bytes: "section_data ?ro_1 = section_data ?ro_2"
    by (simp add: example_section_def)
  have 2: "KStr ''.rodata'' \<in> fst ` set (modified_sections (compare_sections ?left ?right))"
    using T_ro look(3,4) ro_values by blast
  have data_len: "length (section_data ?data_1) \<noteq> length (section_data ?data_2)"
    by (simp add: example_section_def)
  have 3: "KStr ''.data'' \<in> fst ` set (modified_sections (compare_sections ?left ?right))"
    using T_data look(5,6) data_len by blast
  have init_bytes: "locate_array_diff (section_data ?init_1) (section_data ?init_2) \<noteq> - 1"
    using locate_array_diff_first [of 1 "[8, 9]" "[8, 6]"]
    by (simp add: example_section_def)
  have 4: "KStr ''.init'' \<in> fst ` set (modified_sections (compare_sections ?left ?right))"
    using T_init look(7,8) init_bytes by blast
  from 1 2 3 4 show ?thesis unfolding Let_def by (intro conjI)
qed

section \<open>The overlap lists of the occupancy comparison\<close>

lemmas eval_defs =
  read_metadata_def flatten_header_def example_file_def unread_def get_used_blocks_def
  get_not_used_blocks_def not_used_blocks_of_nonempty not_used_loop_eq file_size_def BytesIO_def
  mk_Block_def end_offset_def last_offset_def gap_between_def trailing_gap_def Let_def

text \<open>
  C1. The claim: the overlap lists of the occupancy step are computed over each file's
  used blocks, so a file whose used blocks include \<open>[0,10)\<close> and \<open>[5,15)\<close> has that pair
  in its reported list. \<^verbatim>\<open>_compare_blocks\<close> hands the not-used blocks to
  \<^verbatim>\<open>_check_overlapped_blocks\<close>: for the file below the check on the used blocks finds
  the pair, and the report of the comparison has two empty overlap lists.
\<close>

theorem overlaps_computed_on_not_used_blocks:
  "(let elf = example_file 10 5 10 15 0 [] (replicate 20 0);
        used = [mk_Block 0 10 ELF_HEADER (HeaderObject []),
                mk_Block 5 10 PROGRAM_HEADER_TABLE NoObject,
                mk_Block 15 0 SECTION_HEADER_TABLE NoObject];
        self = (unread elf)\<lparr>used_blocks := Some used,
                              not_used_blocks := Some [mk_Block 15 5 NOT_USED NoObject]\<rparr>
    in read_metadata elf = Inr self
       \<and> check_overlapped_blocks used =
           [(mk_Block 0 10 ELF_HEADER (HeaderObject []), mk_Block 5 10 PROGRAM_HEADER_TABLE NoObject)]
       \<and> compare_blocks initial_store self self =
           Inr (\<lparr>left_overlaps_in_used = [], right_overlaps_in_used = [],
                 counts_of_not_used = None, diffs_in_not_used = Default_diffs_in_not_used\<rparr>,
                initial_store))"
proof -
  have upt: "[0..<Suc (Suc 0)] = [0, Suc 0]" by (simp add: upt_rec)
  have rm: "read_metadata (example_file 10 5 10 15 0 [] (replicate 20 0)) =
      Inr ((unread (example_file 10 5 10 15 0 [] (replicate 20 0)))
             \<lparr>used_blocks := Some [mk_Block 0 10 ELF_HEADER (HeaderObject []),
                mk_Block 5 10 PROGRAM_HEADER_TABLE NoObject,
                mk_Block 15 0 SECTION_HEADER_TABLE NoObject],
              not_used_blocks := Some [mk_Block 15 5 NOT_USED NoObject]\<rparr>)"
    by (simp add: eval_defs upt)
  have ov: "check_overlapped_blocks [mk_Block 0 10 ELF_HEADER (HeaderObject []),
                mk_Block 5 10 PROGRAM_HEADER_TABLE NoObject,
                mk_Block 15 0 SECTION_HEADER_TABLE NoObject] =
           [(mk_Block 0 10 ELF_HEADER (HeaderObject []), mk_Block 5 10 PROGRAM_HEADER_TABLE NoObject)]"
    by (simp add: check_overlapped_blocks_def overlapped_loop_eq upt last_offset_def mk_Block_def)
  have cb: "compare_blocks initial_store
       ((unread (example_file 10 5 10 15 0 [] (replicate 20 0)))
             \<lparr>used_blocks := Some [mk_Block 0 10 ELF_HEADER (HeaderObject []),
                mk_Block 5 10 PROGRAM_HEADER_TABLE NoObject,
                mk_Block 15 0 SECTION_HEADER_TABLE NoObject],
              not_used_blocks := Some [mk_Block 15 5 NOT_USED NoObject]\<rparr>)
       ((unread (example_file 10 5 10 15 0 [] (replicate 20 0)))
             \<lparr>used_blocks := Some [mk_Block 0 10 ELF_HEADER (HeaderObject []),
                mk_Block 5 10 PROGRAM_HEADER_TABLE NoObject,
                mk_Block 15 0 SECTION_HEADER_TABLE NoObject],
              not_used_blocks := Some [mk_Block 15 5 NOT_USED NoObject]\<rparr>) =
           Inr (\<lparr>left_overlaps_in_used = [], right_overlaps_in_used = [],
                 counts_of_not_used = None, diffs_in_not_used = Default_diffs_in_not_used\<rparr>,
                initial_store)"
    by (simp add: compare_blocks_def new_AllBlocksDiff_def Let_def unread_def example_file_def
          BytesIO_def data_def seek_def read_def mk_Block_def has_changes_block_def
          locate_array_diff_prefix
          check_overlapped_blocks_def overlapped_loop_eq)
  show ?thesis unfolding Let_def using rm ov cb by (intro conjI)
qed


section \<open>State shared between comparisons\<close>

lemma compare_dict_empty:
  "compare_dict [] [] deep im isame cf = DictDiff [] [] [] [] []"
  by (simp add: compare_dict.simps [of "[]" "[]" deep im isame cf] keys_def intersection_def
        difference_def)

text \<open>
  C6. The claim: a second comparison of the same pair of files yields the report a fresh
  comparison yields. The two files below differ in the one byte of their one gap. The
  first \<^verbatim>\<open>compare_to\<close>, from the initial store, reports one differing not-used
  block; the second reports two, the entry of the first call being still in the default
  list; and the report of the first call, read again, now shows two as well.
\<close>

theorem compare_to_accumulates_diffs:
  "(let used = [mk_Block 0 2 ELF_HEADER (HeaderObject []),
                mk_Block 2 0 PROGRAM_HEADER_TABLE NoObject,
                mk_Block 2 0 SECTION_HEADER_TABLE NoObject];
        gap = mk_Block 2 1 NOT_USED NoObject;
        left = (unread (example_file 2 2 0 2 0 [] [1, 2, 3]))
                 \<lparr>used_blocks := Some used, not_used_blocks := Some [gap]\<rparr>;
        right = (unread (example_file 2 2 0 2 0 [] [1, 2, 4]))
                 \<lparr>used_blocks := Some used, not_used_blocks := Some [gap]\<rparr>
    in read_metadata (example_file 2 2 0 2 0 [] [1, 2, 3]) = Inr left
       \<and> read_metadata (example_file 2 2 0 2 0 [] [1, 2, 4]) = Inr right
       \<and> (\<exists>r1 st1 r2 st2.
             compare_to initial_store left right = Inr (r1, st1)
             \<and> compare_to st1 left right = Inr (r2, st2)
             \<and> length (read_diffs_in_not_used st1 r1) = 1
             \<and> length (read_diffs_in_not_used st2 r2) = 2
             \<and> length (read_diffs_in_not_used st2 r1) = 2))"
proof -
  let ?used = "[mk_Block 0 2 ELF_HEADER (HeaderObject []),
                mk_Block 2 0 PROGRAM_HEADER_TABLE NoObject,
                mk_Block 2 0 SECTION_HEADER_TABLE NoObject]"
  let ?gap = "mk_Block 2 1 NOT_USED NoObject"
  let ?left = "(unread (example_file 2 2 0 2 0 [] [1, 2, 3]))
                 \<lparr>used_blocks := Some ?used, not_used_blocks := Some [?gap]\<rparr>"
  let ?right = "(unread (example_file 2 2 0 2 0 [] [1, 2, 4]))
                 \<lparr>used_blocks := Some ?used, not_used_blocks := Some [?gap]\<rparr>"
  let ?diff = "\<lparr>left_block = Some ?gap, right_block = Some ?gap,
                 data_sizes_blk = None, data_diff_offset_blk = 0\<rparr>"
  let ?report = "\<lparr>left_elf = ?left, right_elf = ?right,
                   compared_elf_headers = DictDiff [] [] [] [] [],
                   compared_segments = DictDiff [] [] [] [] [],
                   compared_sections = \<lparr>left_new_sections = [], right_new_sections = [],
                                          modified_sections = []\<rparr>,
                   compared_blocks = \<lparr>left_overlaps_in_used = [], right_overlaps_in_used = [],
                                        counts_of_not_used = None,
                                        diffs_in_not_used = Default_diffs_in_not_used\<rparr>\<rparr>"
  have upt: "[0..<Suc (Suc 0)] = [0, Suc 0]" by (simp add: upt_rec)
  have rm1: "read_metadata (example_file 2 2 0 2 0 [] [1, 2, 3]) = Inr ?left"
    by (simp add: eval_defs upt)
  have rm2: "read_metadata (example_file 2 2 0 2 0 [] [1, 2, 4]) = Inr ?right"
    by (simp add: eval_defs upt)
  have bytes: "locate_array_diff [3] [4] = 0"
    using locate_array_diff_first [of 0 "[3]" "[4]"] by simp
  have blocks: "compare_blocks st ?left ?right =
      Inr (\<lparr>left_overlaps_in_used = [], right_overlaps_in_used = [],
            counts_of_not_used = None, diffs_in_not_used = Default_diffs_in_not_used\<rparr>,
           st(Default_diffs_in_not_used := st Default_diffs_in_not_used @ [?diff]))" for st
    by (simp add: compare_blocks_def new_AllBlocksDiff_def Let_def unread_def example_file_def
          BytesIO_def data_def seek_def read_def mk_Block_def has_changes_block_def bytes
          check_overlapped_blocks_def overlapped_loop_eq)
  have cmp: "compare_to st ?left ?right =
      Inr (?report, st(Default_diffs_in_not_used := st Default_diffs_in_not_used @ [?diff]))" for st
    unfolding compare_to_def Let_def blocks
    by (simp add: compare_segments_def compare_sections_def group_segments_def sections_dict_def
          unread_def example_file_def compare_dict_empty)
  let ?st1 = "initial_store(Default_diffs_in_not_used := initial_store Default_diffs_in_not_used @ [?diff])"
  let ?st2 = "?st1(Default_diffs_in_not_used := ?st1 Default_diffs_in_not_used @ [?diff])"
  have "compare_to initial_store ?left ?right = Inr (?report, ?st1)
        \<and> compare_to ?st1 ?left ?right = Inr (?report, ?st2)
        \<and> length (read_diffs_in_not_used ?st1 ?report) = 1
        \<and> length (read_diffs_in_not_used ?st2 ?report) = 2
        \<and> length (read_diffs_in_not_used ?st2 ?report) = 2"
    using cmp [of initial_store] cmp [of ?st1]
    by (simp add: read_diffs_in_not_used_def initial_store_def)
  then have ex: "\<exists>r1 st1 r2 st2.
             compare_to initial_store ?left ?right = Inr (r1, st1)
             \<and> compare_to st1 ?left ?right = Inr (r2, st2)
             \<and> length (read_diffs_in_not_used st1 r1) = 1
             \<and> length (read_diffs_in_not_used st2 r2) = 2
             \<and> length (read_diffs_in_not_used st2 r1) = 2"
    by blast
  show ?thesis unfolding Let_def using rm1 rm2 ex by (intro conjI)
qed

end
